theory Spec2Isabelle
  imports Complex_Main "HOL-Library.Sublist"
begin

section \<open>Session and identity registry (utils/session_manager.py)\<close>

text \<open>
  The dataclasses \<^verbatim>\<open>User\<close> and \<^verbatim>\<open>ChatSession\<close>; the fields carry a prefix
  where the same name is a field of both. Timestamps are the floats of
  \<^verbatim>\<open>time.time()\<close>, taken as reals; the metadata dictionaries play no part in the
  operations below and are kept as association lists of strings.
\<close>

record chat_session =
  cs_session_id :: string
  cs_user_id :: string
  cs_created_at :: real
  cs_last_activity :: real
  cs_metadata :: "(string \<times> string) list"

record user =
  u_user_id :: string
  username :: string
  u_created_at :: real
  last_login :: real
  total_sessions :: int
  u_metadata :: "(string \<times> string) list"

text \<open>
  \<^verbatim>\<open>SessionManager\<close> holds two dictionaries keyed by identifier. A Python dictionary
  keeps its items in insertion order and the code iterates over them, so each is an
  association list; \<^verbatim>\<open>key in d\<close> is membership among the keys and \<^verbatim>\<open>del d[key]\<close>
  drops the entry of that key.
\<close>

record session_manager =
  users :: "(string \<times> user) list"
  sessions :: "(string \<times> chat_session) list"

definition dict_has :: "('k \<times> 'v) list \<Rightarrow> 'k \<Rightarrow> bool" where
  "dict_has d k = (k \<in> set (map fst d))"

definition dict_del :: "('k \<times> 'v) list \<Rightarrow> 'k \<Rightarrow> ('k \<times> 'v) list" where
  "dict_del d k = filter (\<lambda>kv. fst kv \<noteq> k) d"

text \<open>The loop \<^verbatim>\<open>for session_id in user_sessions: del self.sessions[session_id]\<close>.\<close>

fun del_all :: "('k \<times> 'v) list \<Rightarrow> 'k list \<Rightarrow> ('k \<times> 'v) list" where
  "del_all d [] = d"
| "del_all d (k # ks) = del_all (dict_del d k) ks"

text \<open>
  \<^verbatim>\<open>delete_user\<close>: the early return for an unknown user, the list comprehension that
  collects the keys of the user's sessions, the deletions, and the result \<^verbatim>\<open>True\<close>.
  The two \<^verbatim>\<open>_save_*\<close> calls write the dictionaries to disk and swallow every
  exception; they do not touch the in-memory registry.
\<close>

definition delete_user :: "session_manager \<Rightarrow> string \<Rightarrow> bool \<times> session_manager" where
  "delete_user sm uid =
     (if \<not> dict_has (users sm) uid then (False, sm)
      else
        let user_sessions = map fst (filter (\<lambda>kv. cs_user_id (snd kv) = uid) (sessions sm));
            sessions' = del_all (sessions sm) user_sessions;
            users' = dict_del (users sm) uid
        in (True, sm\<lparr>users := users', sessions := sessions'\<rparr>))"

text \<open>\<^verbatim>\<open>get_user_sessions\<close> without the activity cut-off and the sorting: the sessions
  whose \<^verbatim>\<open>user_id\<close> field is the given one.\<close>

definition sessions_of :: "session_manager \<Rightarrow> string \<Rightarrow> chat_session list" where
  "sessions_of sm uid = filter (\<lambda>s. cs_user_id s = uid) (map snd (sessions sm))"

section \<open>Memory suggestion analyzer (agents/memory_agent.py)\<close>

text \<open>
  \<^verbatim>\<open>str.lower()\<close> on the letters A to Z; every other character is left as it is.
  The keyword tables are ASCII, and the theorems below speak of the lower-cased
  utterance, so they do not depend on how other characters are folded.
\<close>

definition lower_char :: "char \<Rightarrow> char" where
  "lower_char c =
     (let n = (of_char c :: nat)
      in if 65 \<le> n \<and> n \<le> 90 then char_of (n + 32) else c)"

definition lower :: "string \<Rightarrow> string" where
  "lower s = map lower_char s"

text \<open>Python's \<^verbatim>\<open>keyword in text\<close> on strings: the keyword occurs as a contiguous run.\<close>

fun contains :: "string \<Rightarrow> string \<Rightarrow> bool" where
  "contains [] k = (k = [])"
| "contains (c # cs) k = (prefix k (c # cs) \<or> contains cs k)"

record suggestion =
  s_type :: string
  s_content :: string
  s_reason :: string
  s_importance :: real

definition preference_keywords :: "string list" where
  "preference_keywords =
     [''i like'', ''i prefer'', ''i don'' @ [CHR 0x27] @ ''t like'', ''i hate'',
      ''my favorite'', ''i love'', ''i enjoy'']"

definition personal_keywords :: "string list" where
  "personal_keywords = [''my name is'', ''i am'', ''i work'', ''i live'', ''my job'']"

definition fact_keywords :: "string list" where
  "fact_keywords =
     [''remember that'', ''important'', ''don'' @ [CHR 0x27] @ ''t forget'', ''note that'']"

definition any_keyword :: "string list \<Rightarrow> string \<Rightarrow> bool" where
  "any_keyword kws msg = list_ex (\<lambda>k. contains (lower msg) k) kws"

text \<open>
  \<^verbatim>\<open>_analyze_for_memory_storage\<close>: three \<^verbatim>\<open>if\<close> statements in sequence, each
  appending to \<^verbatim>\<open>suggestions\<close>. The response and the retrieved memories are
  parameters of the method that its body never reads.
\<close>

definition analyze_for_memory_storage :: "string \<Rightarrow> suggestion list" where
  "analyze_for_memory_storage user_message =
     (if any_keyword preference_keywords user_message
      then [\<lparr>s_type = ''preference'', s_content = user_message,
             s_reason = ''User expressed a preference'', s_importance = 8 / 10\<rparr>]
      else []) @
     (if any_keyword personal_keywords user_message
      then [\<lparr>s_type = ''fact'', s_content = user_message,
             s_reason = ''User shared personal information'', s_importance = 9 / 10\<rparr>]
      else []) @
     (if any_keyword fact_keywords user_message
      then [\<lparr>s_type = ''fact'', s_content = user_message,
             s_reason = ''User indicated this is important to remember'', s_importance = 8 / 10\<rparr>]
      else [])"

section \<open>Vector store and long-term memory (memory/vector_store.py, memory/long_term.py)\<close>

text \<open>
  Exceptions are values. A collaborator that raises returns \<open>Inl\<close>; \<open>TypeError\<close> is
  what Python raises when a metadata value that is a string meets \<^verbatim>\<open>+\<close> or \<^verbatim>\<open><\<close>
  with a number.
\<close>

datatype error = Upstream string | TypeError

text \<open>The metadata values the index accepts: \<^verbatim>\<open>str\<close>, \<^verbatim>\<open>int\<close>, \<^verbatim>\<open>float\<close>, \<^verbatim>\<open>bool\<close>.\<close>

datatype pyval = PStr string | PInt int | PFloat real | PBool bool

type_synonym pydict = "string \<rightharpoonup> pyval"

text \<open>One row of \<^verbatim>\<open>collection.query\<close>: id, document, metadata and cosine distance.\<close>

record hit =
  h_id :: string
  h_document :: string
  h_metadata :: pydict
  h_distance :: real

text \<open>One element of the list \<^verbatim>\<open>search_memories\<close> returns.\<close>

record found =
  f_text :: string
  f_metadata :: pydict
  f_similarity :: real
  f_id :: string

text \<open>
  The external collaborators of a \<^verbatim>\<open>VectorStore\<close>: the embedding service and the
  ChromaDB collection. They are opaque: each call either raises or answers, and the
  collection's state \<open>'c\<close> is changed by \<^verbatim>\<open>add\<close> only. \<^verbatim>\<open>collection.get\<close> answers the
  rows of the requested id (documents and metadatas in parallel, none when the id is
  unknown).
\<close>

record 'c backend =
  embed_text :: "string \<Rightarrow> error + real list"
  coll_add :: "'c \<Rightarrow> string \<Rightarrow> string \<Rightarrow> pydict \<Rightarrow> real list \<Rightarrow> error + 'c"
  coll_query :: "'c \<Rightarrow> real list \<Rightarrow> int \<Rightarrow> error + hit list"
  coll_get :: "'c \<Rightarrow> string \<Rightarrow> error + (string \<times> pydict) list"

text \<open>\<^verbatim>\<open>Config.LONG_TERM_MEMORY_THRESHOLD\<close> and \<^verbatim>\<open>Config.MAX_LONG_TERM_MEMORIES\<close>.\<close>

definition similarity_threshold :: real where
  "similarity_threshold = 2 / 10"

definition max_memories :: int where
  "max_memories = 5"

text \<open>\<^verbatim>\<open>','.join(tags)\<close>.\<close>

fun join :: "string \<Rightarrow> string list \<Rightarrow> string" where
  "join sep [] = []"
| "join sep [x] = x"
| "join sep (x # y # ys) = x @ sep @ join sep (y # ys)"

text \<open>
  \<^verbatim>\<open>VectorStore.add_memory\<close> called without an id: embed the text, take a fresh
  \<^verbatim>\<open>uuid4\<close> string, add the key \<^verbatim>\<open>timestamp\<close> when the metadata has none, add to the
  collection. Every exception is logged and raised again. The readings of
  \<^verbatim>\<open>time.time()\<close> during one call are taken as the one instant \<open>now\<close>.
\<close>

definition add_memory ::
  "'c backend \<Rightarrow> 'c \<Rightarrow> real \<Rightarrow> string \<Rightarrow> string \<Rightarrow> pydict \<Rightarrow> error + (string \<times> 'c)" where
  "add_memory b c now uuid text metadata =
     (case embed_text b text of
        Inl e \<Rightarrow> Inl e
      | Inr embedding \<Rightarrow>
          let memory_id = uuid;
              metadata' = (if ''timestamp'' \<notin> dom metadata
                           then metadata(''timestamp'' \<mapsto> PFloat now) else metadata)
          in (case coll_add b c memory_id text metadata' embedding of
                Inl e \<Rightarrow> Inl e
              | Inr c' \<Rightarrow> Inr (memory_id, c')))"

text \<open>
  The body of the loop of \<^verbatim>\<open>search_memories\<close> over the rows of the query:
  similarity is one minus the distance, and a row below the threshold is skipped.
  The subtraction and the comparison are those of the reals; the source computes
  them in double precision, so a hit whose similarity is within rounding of the
  threshold may fall on the other side there. Nothing below depends on the side.
\<close>

fun collect_hits :: "real option \<Rightarrow> hit list \<Rightarrow> found list" where
  "collect_hits threshold [] = []"
| "collect_hits threshold (h # hs) =
     (let similarity = 1 - h_distance h
      in if threshold \<noteq> None \<and> similarity < the threshold
         then collect_hits threshold hs
         else \<lparr>f_text = h_document h, f_metadata = h_metadata h,
               f_similarity = similarity, f_id = h_id h\<rparr> # collect_hits threshold hs)"

definition search_memories ::
  "'c backend \<Rightarrow> 'c \<Rightarrow> string \<Rightarrow> int \<Rightarrow> real option \<Rightarrow> error + found list" where
  "search_memories b c query n_results threshold =
     (case embed_text b query of
        Inl e \<Rightarrow> Inl e
      | Inr query_embedding \<Rightarrow>
          (case coll_query b c query_embedding n_results of
             Inl e \<Rightarrow> Inl e
           | Inr results \<Rightarrow> Inr (collect_hits threshold results)))"

text \<open>
  \<^verbatim>\<open>VectorStore.get_memory_by_id\<close>: the record is returned when the answer has a
  document and that document is truthy (a non-empty string); an exception of the
  collection is logged and \<^verbatim>\<open>None\<close> is returned.
\<close>

definition vs_get_memory_by_id ::
  "'c backend \<Rightarrow> 'c \<Rightarrow> string \<Rightarrow> (string \<times> string \<times> pydict) option" where
  "vs_get_memory_by_id b c memory_id =
     (case coll_get b c memory_id of
        Inl e \<Rightarrow> None
      | Inr [] \<Rightarrow> None
      | Inr ((doc, md) # rest) \<Rightarrow> (if doc \<noteq> [] then Some (memory_id, doc, md) else None))"

text \<open>
  \<^verbatim>\<open>store_memory\<close>. The importance is clamped, \<^verbatim>\<open>tags or []\<close> replaces a missing
  list, the content is removed from the metadata, the tags are joined with commas,
  and the keys whose value is \<^verbatim>\<open>None\<close> (context, source) are left out. Every value
  is then a string, an integer or a float, so the \<^verbatim>\<open>str(value)\<close> branch is not taken.
  Returns the new id and the collection after the write; an exception is raised again.
\<close>

definition opt_key :: "string \<Rightarrow> string option \<Rightarrow> pydict" where
  "opt_key k v = (case v of None \<Rightarrow> Map.empty | Some s \<Rightarrow> [k \<mapsto> PStr s])"

definition store_metadata ::
  "real \<Rightarrow> string \<Rightarrow> real \<Rightarrow> string list option \<Rightarrow> string option \<Rightarrow> string option \<Rightarrow> pydict" where
  "store_metadata now memory_type importance tags context source =
     (let tags' = (case tags of None \<Rightarrow> [] | Some ts \<Rightarrow> ts)
      in [''memory_type'' \<mapsto> PStr memory_type,
          ''importance'' \<mapsto> PFloat (max 0 (min 1 importance)),
          ''created_at'' \<mapsto> PFloat now,
          ''last_accessed'' \<mapsto> PFloat now,
          ''access_count'' \<mapsto> PInt 0,
          ''tags'' \<mapsto> PStr (if tags' \<noteq> [] then join '','' tags' else [])]
         ++ opt_key ''context'' context ++ opt_key ''source'' source)"

definition store_memory ::
  "'c backend \<Rightarrow> 'c \<Rightarrow> real \<Rightarrow> string \<Rightarrow> string \<Rightarrow> string \<Rightarrow> real \<Rightarrow> string list option \<Rightarrow>
   string option \<Rightarrow> string option \<Rightarrow> error + (string \<times> 'c)" where
  "store_memory b c now uuid content memory_type importance tags context source =
     add_memory b c now uuid content
       (store_metadata now memory_type importance tags context source)"

text \<open>
  \<^verbatim>\<open>metadata.get('importance', 0) < min_importance\<close> and
  \<^verbatim>\<open>metadata.get('access_count', 0) + 1\<close> on the metadata values.
\<close>

fun py_lt :: "pyval option \<Rightarrow> real \<Rightarrow> error + bool" where
  "py_lt None r = Inr (0 < r)"
| "py_lt (Some (PInt i)) r = Inr (real_of_int i < r)"
| "py_lt (Some (PFloat x)) r = Inr (x < r)"
| "py_lt (Some (PBool v)) r = Inr ((if v then 1 else 0) < r)"
| "py_lt (Some (PStr s)) r = Inl TypeError"

fun py_succ :: "pyval option \<Rightarrow> error + pyval" where
  "py_succ None = Inr (PInt 1)"
| "py_succ (Some (PInt i)) = Inr (PInt (i + 1))"
| "py_succ (Some (PFloat x)) = Inr (PFloat (x + 1))"
| "py_succ (Some (PBool v)) = Inr (PInt ((if v then 1 else 0) + 1))"
| "py_succ (Some (PStr s)) = Inl TypeError"

text \<open>
  The two filters of \<^verbatim>\<open>retrieve_memories\<close>. Each is guarded by the truthiness of
  its argument: \<^verbatim>\<open>None\<close> and the empty string switch the type filter off, \<^verbatim>\<open>None\<close>
  and zero switch the importance floor off.
\<close>

definition type_rejects :: "string option \<Rightarrow> pydict \<Rightarrow> bool" where
  "type_rejects memory_type md =
     (case memory_type of
        None \<Rightarrow> False
      | Some t \<Rightarrow> t \<noteq> [] \<and> md ''memory_type'' \<noteq> Some (PStr t))"

definition importance_rejects :: "real option \<Rightarrow> pydict \<Rightarrow> error + bool" where
  "importance_rejects min_importance md =
     (case min_importance of
        None \<Rightarrow> Inr False
      | Some r \<Rightarrow> (if r \<noteq> 0 then py_lt (md ''importance'') r else Inr False))"

text \<open>
  The dictionary built for a record that passes: the metadata with
  \<^verbatim>\<open>last_accessed\<close> and \<^verbatim>\<open>access_count\<close> overwritten, spread over id, content and
  similarity.
\<close>

definition memory_result :: "found \<Rightarrow> pydict \<Rightarrow> pydict" where
  "memory_result m md =
     [''id'' \<mapsto> PStr (f_id m), ''content'' \<mapsto> PStr (f_text m),
      ''similarity'' \<mapsto> PFloat (f_similarity m)] ++ md"

text \<open>
  The \<^verbatim>\<open>for\<close> loop of \<^verbatim>\<open>retrieve_memories\<close> with its two \<^verbatim>\<open>continue\<close>s and its
  \<^verbatim>\<open>break\<close>; \<open>acc\<close> is \<^verbatim>\<open>filtered_memories\<close>.
\<close>

fun filter_loop ::
  "real \<Rightarrow> string option \<Rightarrow> real option \<Rightarrow> int \<Rightarrow> found list \<Rightarrow> pydict list \<Rightarrow> error + pydict list" where
  "filter_loop now memory_type min_importance max_results [] acc = Inr acc"
| "filter_loop now memory_type min_importance max_results (m # ms) acc =
     (if type_rejects memory_type (f_metadata m)
      then filter_loop now memory_type min_importance max_results ms acc
      else (case importance_rejects min_importance (f_metadata m) of
              Inl e \<Rightarrow> Inl e
            | Inr True \<Rightarrow> filter_loop now memory_type min_importance max_results ms acc
            | Inr False \<Rightarrow>
                (case py_succ (f_metadata m ''access_count'') of
                   Inl e \<Rightarrow> Inl e
                 | Inr n \<Rightarrow>
                     let md = (f_metadata m)(''last_accessed'' \<mapsto> PFloat now, ''access_count'' \<mapsto> n);
                         acc' = acc @ [memory_result m md]
                     in if int (length acc') \<ge> max_results then Inr acc'
                        else filter_loop now memory_type min_importance max_results ms acc')))"

text \<open>\<^verbatim>\<open>max_results or self.max_memories\<close>.\<close>

definition effective_max :: "int option \<Rightarrow> int" where
  "effective_max max_results =
     (case max_results of None \<Rightarrow> max_memories | Some n \<Rightarrow> if n = 0 then max_memories else n)"

text \<open>
  The two searches of \<^verbatim>\<open>retrieve_memories\<close>: twice the limit at the configured
  threshold, and when that list is empty the limit itself with no threshold.
\<close>

definition two_phase_search :: "'c backend \<Rightarrow> 'c \<Rightarrow> string \<Rightarrow> int \<Rightarrow> error + found list" where
  "two_phase_search b c query max_results =
     (case search_memories b c query (max_results * 2) (Some similarity_threshold) of
        Inl e \<Rightarrow> Inl e
      | Inr memories \<Rightarrow>
          (if memories = [] then search_memories b c query max_results None
           else Inr memories))"

text \<open>
  \<^verbatim>\<open>retrieve_memories\<close>: everything runs inside one \<^verbatim>\<open>try\<close> whose handler logs and
  returns the empty list. The method calls \<^verbatim>\<open>search_memories\<close> only, which reads
  the collection; the second component is the collection after the call.
\<close>

definition retrieve_memories ::
  "'c backend \<Rightarrow> 'c \<Rightarrow> real \<Rightarrow> string \<Rightarrow> string option \<Rightarrow> int option \<Rightarrow> real option \<Rightarrow>
   pydict list \<times> 'c" where
  "retrieve_memories b c now query memory_type max_results min_importance =
     (let max_results' = effective_max max_results
      in (case two_phase_search b c query max_results' of
            Inl e \<Rightarrow> ([], c)
          | Inr memories \<Rightarrow>
              (case filter_loop now memory_type min_importance max_results' memories [] of
                 Inl e \<Rightarrow> ([], c)
               | Inr filtered_memories \<Rightarrow> (filtered_memories, c))))"

text \<open>
  \<^verbatim>\<open>LongTermMemoryManager.get_memory_by_id\<close>: no \<^verbatim>\<open>try\<close> here, so a \<^verbatim>\<open>TypeError\<close>
  of the increment propagates. It reads the collection and writes nothing back.
\<close>

definition get_memory_by_id ::
  "'c backend \<Rightarrow> 'c \<Rightarrow> real \<Rightarrow> string \<Rightarrow> (error + pydict option) \<times> 'c" where
  "get_memory_by_id b c now memory_id =
     (case vs_get_memory_by_id b c memory_id of
        None \<Rightarrow> (Inr None, c)
      | Some (mid, text, metadata) \<Rightarrow>
          (case py_succ (metadata ''access_count'') of
             Inl e \<Rightarrow> (Inl e, c)
           | Inr n \<Rightarrow>
               (Inr (Some ([''id'' \<mapsto> PStr mid, ''content'' \<mapsto> PStr text]
                           ++ metadata(''last_accessed'' \<mapsto> PFloat now, ''access_count'' \<mapsto> n))),
                c)))"

text \<open>
  Two abbreviations for what one pass of the loop of \<^verbatim>\<open>retrieve_memories\<close> does
  with a record: \<open>passes\<close> says that neither filter skips it, and \<open>touch\<close> is the
  dictionary appended for it (the \<^verbatim>\<open>TypeError\<close> of the increment included).
\<close>

definition passes :: "string option \<Rightarrow> real option \<Rightarrow> found \<Rightarrow> bool" where
  "passes memory_type min_importance m =
     (\<not> type_rejects memory_type (f_metadata m) \<and>
      importance_rejects min_importance (f_metadata m) = Inr False)"

definition touch :: "real \<Rightarrow> found \<Rightarrow> error + pydict" where
  "touch now m =
     (case py_succ (f_metadata m ''access_count'') of
        Inl e \<Rightarrow> Inl e
      | Inr n \<Rightarrow> Inr (memory_result m
                  ((f_metadata m)(''last_accessed'' \<mapsto> PFloat now, ''access_count'' \<mapsto> n))))"

text \<open>Projections used to read a result: the record of an answer of
  \<^verbatim>\<open>get_memory_by_id\<close> (empty when there is none), and the client after a store.\<close>

fun record_of :: "error + pydict option \<Rightarrow> pydict" where
  "record_of (Inr (Some r)) = r"
| "record_of (Inr None) = Map.empty"
| "record_of (Inl e) = Map.empty"

subsection \<open>Storage namespaces\<close>

text \<open>
  \<^verbatim>\<open>VectorStore.__init__\<close> derives the collection name from the identifiers, each
  tested for truthiness (\<^verbatim>\<open>None\<close> and the empty string count as absent), and
  \<^verbatim>\<open>SessionManager.generate_collection_name\<close> builds the same string.
\<close>

definition chroma_collection_name :: string where
  "chroma_collection_name = ''memory_collection''"

definition truthy :: "string option \<Rightarrow> bool" where
  "truthy v = (case v of None \<Rightarrow> False | Some s \<Rightarrow> s \<noteq> [])"

definition generate_collection_name :: "string \<Rightarrow> string \<Rightarrow> string" where
  "generate_collection_name uid sid = ''user_'' @ uid @ ''_session_'' @ sid"

definition vs_collection_name :: "string option \<Rightarrow> string option \<Rightarrow> string option \<Rightarrow> string" where
  "vs_collection_name uid sid collection_name =
     (if truthy uid \<and> truthy sid then ''user_'' @ the uid @ ''_session_'' @ the sid
      else if truthy uid then ''user_'' @ the uid @ ''_global''
      else if truthy collection_name then the collection_name else chroma_collection_name)"

text \<open>
  The identifiers the registry issues: \<^verbatim>\<open>create_user\<close> takes the first 8 and
  \<^verbatim>\<open>create_session\<close> the first 12 of the 32 hexadecimal digits of a fresh uuid.
\<close>

definition new_user_id :: "string \<Rightarrow> string" where
  "new_user_id uuid_hex = ''user_'' @ take 8 uuid_hex"

definition new_session_id :: "string \<Rightarrow> string" where
  "new_session_id uuid_hex = ''session_'' @ take 12 uuid_hex"

text \<open>
  The persistent client keeps the collections by name;
  \<^verbatim>\<open>get_or_create_collection\<close> answers the collection of that name, a new empty one
  when there is none. A memory operation of a store built for an identity pair works
  on the collection of the pair's name and on no other.
\<close>

type_synonym 'c client = "string \<rightharpoonup> 'c"

definition get_or_create_collection :: "'c \<Rightarrow> 'c client \<Rightarrow> string \<Rightarrow> 'c" where
  "get_or_create_collection empty_coll cl name = (case cl name of None \<Rightarrow> empty_coll | Some c \<Rightarrow> c)"

definition store_memory_as ::
  "'c backend \<Rightarrow> 'c \<Rightarrow> 'c client \<Rightarrow> string \<Rightarrow> string \<Rightarrow> real \<Rightarrow> string \<Rightarrow> string \<Rightarrow> string \<Rightarrow>
   real \<Rightarrow> string list option \<Rightarrow> string option \<Rightarrow> string option \<Rightarrow> error + (string \<times> 'c client)" where
  "store_memory_as b empty_coll cl uid sid now uuid content memory_type importance tags context source =
     (let name = vs_collection_name (Some uid) (Some sid) None;
          c = get_or_create_collection empty_coll cl name
      in (case store_memory b c now uuid content memory_type importance tags context source of
            Inl e \<Rightarrow> Inl e
          | Inr (memory_id, c') \<Rightarrow> Inr (memory_id, cl(name \<mapsto> c'))))"

definition get_memory_by_id_as ::
  "'c backend \<Rightarrow> 'c \<Rightarrow> 'c client \<Rightarrow> string \<Rightarrow> string \<Rightarrow> real \<Rightarrow> string \<Rightarrow> error + pydict option" where
  "get_memory_by_id_as b empty_coll cl uid sid now memory_id =
     (let name = vs_collection_name (Some uid) (Some sid) None;
          c = get_or_create_collection empty_coll cl name
      in fst (get_memory_by_id b c now memory_id))"

fun client_after :: "'c client \<Rightarrow> error + (string \<times> 'c client) \<Rightarrow> 'c client" where
  "client_after cl (Inr (memory_id, cl')) = cl'"
| "client_after cl (Inl e) = cl"

definition retrieve_memories_as ::
  "'c backend \<Rightarrow> 'c \<Rightarrow> 'c client \<Rightarrow> string \<Rightarrow> string \<Rightarrow> real \<Rightarrow> string \<Rightarrow>
   string option \<Rightarrow> int option \<Rightarrow> real option \<Rightarrow> pydict list" where
  "retrieve_memories_as b empty_coll cl uid sid now query memory_type max_results min_importance =
     (let name = vs_collection_name (Some uid) (Some sid) None;
          c = get_or_create_collection empty_coll cl name
      in fst (retrieve_memories b c now query memory_type max_results min_importance))"

subsection \<open>Two indexes for the worked examples\<close>

text \<open>
  A small index that keeps its rows in a list, answers a query with the first
  \<open>n\<close> rows, all at the distance \<open>d\<close>, and answers \<^verbatim>\<open>get\<close> with the rows of the
  id; and an index that raises on every call.
\<close>

type_synonym row = "string \<times> string \<times> pydict"

definition list_index :: "real \<Rightarrow> row list backend" where
  "list_index d =
     \<lparr>embed_text = (\<lambda>t. Inr [real (length t)]),
      coll_add = (\<lambda>c memory_id doc md emb. Inr (c @ [(memory_id, doc, md)])),
      coll_query = (\<lambda>c emb n. Inr (map (\<lambda>(i, doc, md).
                      \<lparr>h_id = i, h_document = doc, h_metadata = md, h_distance = d\<rparr>) (take (nat n) c))),
      coll_get = (\<lambda>c memory_id. Inr (map snd (filter (\<lambda>r. fst r = memory_id) c)))\<rparr>"

definition broken_index :: "row list backend" where
  "broken_index =
     \<lparr>embed_text = (\<lambda>t. Inr [real (length t)]),
      coll_add = (\<lambda>c memory_id doc md emb. Inl (Upstream ''index down'')),
      coll_query = (\<lambda>c emb n. Inl (Upstream ''index down'')),
      coll_get = (\<lambda>c memory_id. Inl (Upstream ''index down''))\<rparr>"

text \<open>
  What a reader of the record would do to get the tag list back, following the
  specification's words (the source has no such step): \<^verbatim>\<open>str.split(',')\<close>.
\<close>

fun spec_split :: "char \<Rightarrow> string \<Rightarrow> string list" where
  "spec_split sep [] = [[]]"
| "spec_split sep (c # cs) =
     (if c = sep then [] # spec_split sep cs
      else (case spec_split sep cs of [] \<Rightarrow> [[c]] | w # ws \<Rightarrow> (c # w) # ws))"

section \<open>Orchestration workflow (agents/graph_builder.py)\<close>

text \<open>
  \<^verbatim>\<open>AgentState\<close>, without the \<^verbatim>\<open>messages\<close> list that no node reads or writes.
\<close>

record agent_state =
  user_input :: string
  agent_response :: string
  relevant_memories :: "pydict list"
  memory_suggestions :: "suggestion list"
  should_store_memory :: bool
  stored_memory_ids :: "string list"
  error_field :: "string option"

text \<open>
  What the nodes call on the agent. Each call may raise; \<open>'w\<close> is everything the
  agent owns (conversation buffer, memory store, language model), and a call that
  raises may still have changed it. \<open>respond\<close> is \<^verbatim>\<open>_prepare_context\<close> followed by
  \<^verbatim>\<open>_generate_response\<close>. The conversation buffer (\<^verbatim>\<open>memory/short_term.py\<close>) is
  not among the sources; its three operations are fields here.
\<close>

record 'w agent =
  add_user_message :: "string \<Rightarrow> 'w \<Rightarrow> (error + unit) \<times> 'w"
  retrieve :: "string \<Rightarrow> 'w \<Rightarrow> (error + pydict list) \<times> 'w"
  respond :: "string \<Rightarrow> pydict list \<Rightarrow> 'w \<Rightarrow> (error + string) \<times> 'w"
  add_assistant_message :: "string \<Rightarrow> 'w \<Rightarrow> (error + unit) \<times> 'w"
  analyze :: "string \<Rightarrow> string \<Rightarrow> pydict list \<Rightarrow> error + suggestion list"
  store_memory_suggestion :: "suggestion \<Rightarrow> 'w \<Rightarrow> (error + string) \<times> 'w"
  get_conversation_context :: "'w \<Rightarrow> error + (string \<times> string) list"

text \<open>\<^verbatim>\<open>str(e)\<close>.\<close>

fun str_of :: "error \<Rightarrow> string" where
  "str_of (Upstream msg) = msg"
| "str_of TypeError = ''unsupported operand type(s)''"

definition apology_generate :: string where
  "apology_generate = ''I apologize, but I encountered an error generating a response.''"

definition apology_run :: string where
  "apology_run = ''I apologize, but I encountered an error processing your request.''"

definition process_input_node :: "'w agent \<Rightarrow> agent_state \<times> 'w \<Rightarrow> agent_state \<times> 'w" where
  "process_input_node a sw =
     (case sw of (state, w) \<Rightarrow>
        (case add_user_message a (user_input state) w of
           (Inr u, w') \<Rightarrow> (state\<lparr>error_field := None\<rparr>, w')
         | (Inl e, w') \<Rightarrow> (state\<lparr>error_field := Some (str_of e)\<rparr>, w')))"

definition retrieve_memories_node :: "'w agent \<Rightarrow> agent_state \<times> 'w \<Rightarrow> agent_state \<times> 'w" where
  "retrieve_memories_node a sw =
     (case sw of (state, w) \<Rightarrow>
        (case retrieve a (user_input state) w of
           (Inr ms, w') \<Rightarrow> (state\<lparr>relevant_memories := ms\<rparr>, w')
         | (Inl e, w') \<Rightarrow>
             (state\<lparr>error_field := Some (str_of e), relevant_memories := []\<rparr>, w')))"

definition generate_response_node :: "'w agent \<Rightarrow> agent_state \<times> 'w \<Rightarrow> agent_state \<times> 'w" where
  "generate_response_node a sw =
     (case sw of (state, w) \<Rightarrow>
        (case respond a (user_input state) (relevant_memories state) w of
           (Inl e, w') \<Rightarrow>
             (state\<lparr>error_field := Some (str_of e), agent_response := apology_generate\<rparr>, w')
         | (Inr response, w') \<Rightarrow>
             (case add_assistant_message a response w' of
                (Inl e, w'') \<Rightarrow>
                  (state\<lparr>error_field := Some (str_of e), agent_response := apology_generate\<rparr>, w'')
              | (Inr u, w'') \<Rightarrow> (state\<lparr>agent_response := response\<rparr>, w''))))"

definition analyze_memory_node :: "'w agent \<Rightarrow> agent_state \<times> 'w \<Rightarrow> agent_state \<times> 'w" where
  "analyze_memory_node a sw =
     (case sw of (state, w) \<Rightarrow>
        (case analyze a (user_input state) (agent_response state) (relevant_memories state) of
           Inr suggestions \<Rightarrow>
             (state\<lparr>memory_suggestions := suggestions,
                    should_store_memory := (length suggestions > 0)\<rparr>, w)
         | Inl e \<Rightarrow>
             (state\<lparr>error_field := Some (str_of e), memory_suggestions := [],
                    should_store_memory := False\<rparr>, w)))"

text \<open>
  The loop of \<^verbatim>\<open>_store_memory_node\<close>: each suggestion is stored inside its own
  \<^verbatim>\<open>try\<close>, whose handler logs and goes on to the next suggestion.
\<close>

fun store_loop :: "'w agent \<Rightarrow> suggestion list \<Rightarrow> string list \<Rightarrow> 'w \<Rightarrow> string list \<times> 'w" where
  "store_loop a [] stored_ids w = (stored_ids, w)"
| "store_loop a (sg # sgs) stored_ids w =
     (case store_memory_suggestion a sg w of
        (Inr memory_id, w') \<Rightarrow> store_loop a sgs (stored_ids @ [memory_id]) w'
      | (Inl e, w') \<Rightarrow> store_loop a sgs stored_ids w')"

text \<open>
  Nothing outside the inner \<^verbatim>\<open>try\<close> of \<^verbatim>\<open>_store_memory_node\<close> can raise (the key
  \<^verbatim>\<open>memory_suggestions\<close> is always in the state), so the outer handler has no branch.
\<close>

definition store_memory_node :: "'w agent \<Rightarrow> agent_state \<times> 'w \<Rightarrow> agent_state \<times> 'w" where
  "store_memory_node a sw =
     (case sw of (state, w) \<Rightarrow>
        (case store_loop a (memory_suggestions state) [] w of
           (stored_ids, w') \<Rightarrow> (state\<lparr>stored_memory_ids := stored_ids\<rparr>, w')))"

text \<open>
  For stating what the node stores: the outcome of each call of
  \<^verbatim>\<open>store_memory_suggestion\<close> when the suggestions are tried one after the other,
  each on what the one before left behind, and the ids among these outcomes.
\<close>

fun attempts :: "'w agent \<Rightarrow> suggestion list \<Rightarrow> 'w \<Rightarrow> (error + string) list" where
  "attempts a [] w = []"
| "attempts a (sg # sgs) w =
     fst (store_memory_suggestion a sg w) # attempts a sgs (snd (store_memory_suggestion a sg w))"

fun succeeded :: "(error + string) list \<Rightarrow> string list" where
  "succeeded [] = []"
| "succeeded (Inr memory_id # rest) = memory_id # succeeded rest"
| "succeeded (Inl e # rest) = succeeded rest"

definition finalize_node :: "'w agent \<Rightarrow> agent_state \<times> 'w \<Rightarrow> agent_state \<times> 'w" where
  "finalize_node a sw = sw"

text \<open>The graph of \<^verbatim>\<open>_build_graph\<close>: its nodes, and its edges as a successor function
  (\<open>None\<close> is \<^verbatim>\<open>END\<close>); the edge out of \<^verbatim>\<open>analyze_memory\<close> is \<^verbatim>\<open>_should_store_memory\<close>.\<close>

datatype node = ProcessInput | RetrieveMemories | GenerateResponse | AnalyzeMemory
  | StoreMemory | Finalize

fun run_node :: "'w agent \<Rightarrow> node \<Rightarrow> agent_state \<times> 'w \<Rightarrow> agent_state \<times> 'w" where
  "run_node a ProcessInput = process_input_node a"
| "run_node a RetrieveMemories = retrieve_memories_node a"
| "run_node a GenerateResponse = generate_response_node a"
| "run_node a AnalyzeMemory = analyze_memory_node a"
| "run_node a StoreMemory = store_memory_node a"
| "run_node a Finalize = finalize_node a"

fun next_node :: "node \<Rightarrow> agent_state \<Rightarrow> node option" where
  "next_node ProcessInput state = Some RetrieveMemories"
| "next_node RetrieveMemories state = Some GenerateResponse"
| "next_node GenerateResponse state = Some AnalyzeMemory"
| "next_node AnalyzeMemory state = Some (if should_store_memory state then StoreMemory else Finalize)"
| "next_node StoreMemory state = Some Finalize"
| "next_node Finalize state = None"

fun depth :: "node \<Rightarrow> nat" where
  "depth ProcessInput = 5"
| "depth RetrieveMemories = 4"
| "depth GenerateResponse = 3"
| "depth AnalyzeMemory = 2"
| "depth StoreMemory = 1"
| "depth Finalize = 0"

text \<open>
  Running the compiled graph from a node: run it, follow the edge. The third
  component lists the nodes in the order they ran.
\<close>

function ainvoke :: "'w agent \<Rightarrow> node \<Rightarrow> agent_state \<times> 'w \<Rightarrow> node list \<Rightarrow> agent_state \<times> 'w \<times> node list" where
  "ainvoke a n sw visited =
     (let sw' = run_node a n sw
      in (case next_node n (fst sw') of
            None \<Rightarrow> (fst sw', snd sw', visited @ [n])
          | Some n' \<Rightarrow> ainvoke a n' sw' (visited @ [n])))"
  by pat_completeness auto
termination
proof (relation "measure (\<lambda>(a, n, sw, visited). depth n)")
  show "wf (measure (\<lambda>(a, n, sw, visited). depth n))"
    by simp
next
  fix a :: "'w agent" and n sw visited sw' n'
  assume "sw' = run_node a n sw" and "next_node n (fst sw') = Some n'"
  then have "depth n' < depth n"
    by (cases n) (auto split: if_splits)
  then show "((a, n', sw', visited @ [n]), (a, n, sw, visited))
      \<in> measure (\<lambda>(a, n, sw, visited). depth n)"
    by simp
qed

text \<open>The dictionary \<^verbatim>\<open>run\<close> returns.\<close>

record turn_result =
  response :: string
  r_relevant_memories :: "pydict list"
  r_memory_suggestions :: "suggestion list"
  r_stored_memory_ids :: "string list"
  r_error :: "string option"
  short_term_context :: "(string \<times> string) list"

definition initial_state :: "string \<Rightarrow> agent_state" where
  "initial_state input =
     \<lparr>user_input = input, agent_response = [], relevant_memories = [],
      memory_suggestions = [], should_store_memory = False, stored_memory_ids = [],
      error_field = None\<rparr>"

text \<open>
  \<^verbatim>\<open>run\<close>: the graph is run from its entry point; reading the conversation context
  for the result is inside the \<^verbatim>\<open>try\<close>, and the handler returns the fallback
  dictionary.
\<close>

definition run :: "'w agent \<Rightarrow> string \<Rightarrow> 'w \<Rightarrow> turn_result \<times> 'w \<times> node list" where
  "run a input w =
     (case ainvoke a ProcessInput (initial_state input, w) [] of
        (final_state, w', visited) \<Rightarrow>
          (case get_conversation_context a w' of
             Inr context \<Rightarrow>
               (\<lparr>response = agent_response final_state,
                 r_relevant_memories = relevant_memories final_state,
                 r_memory_suggestions = memory_suggestions final_state,
                 r_stored_memory_ids = stored_memory_ids final_state,
                 r_error = error_field final_state,
                 short_term_context = context\<rparr>, w', visited)
           | Inl e \<Rightarrow>
               (\<lparr>response = apology_run, r_relevant_memories = [], r_memory_suggestions = [],
                 r_stored_memory_ids = [], r_error = Some (str_of e),
                 short_term_context = []\<rparr>, w', visited)))"

text \<open>The state and the agent after the first three nodes, that is, what the
  analysis node is run on.\<close>

definition before_analysis :: "'w agent \<Rightarrow> string \<Rightarrow> 'w \<Rightarrow> agent_state \<times> 'w" where
  "before_analysis a input w =
     generate_response_node a
       (retrieve_memories_node a (process_input_node a (initial_state input, w)))"

section \<open>Chunking (utils/embeddings.py)\<close>

text \<open>
  Python's slice \<^verbatim>\<open>s[i:j]\<close>: a negative bound counts from the end, and both bounds
  are clamped to the string. A string is the list of its characters, so \<open>length\<close>
  is \<^verbatim>\<open>len\<close>.
\<close>

definition slice_bound :: "nat \<Rightarrow> int \<Rightarrow> nat" where
  "slice_bound n i = (if i < 0 then nat (max 0 (i + int n)) else min (nat i) n)"

definition py_slice :: "'a list \<Rightarrow> int \<Rightarrow> int \<Rightarrow> 'a list" where
  "py_slice xs i j =
     (let lo = slice_bound (length xs) i; hi = slice_bound (length xs) j
      in take (hi - lo) (drop lo xs))"

text \<open>\<^verbatim>\<open>str.rfind\<close>: the highest index of the character, or \<open>-1\<close>.\<close>

fun rfind_from :: "char \<Rightarrow> string \<Rightarrow> int \<Rightarrow> int \<Rightarrow> int" where
  "rfind_from c [] i found_at = found_at"
| "rfind_from c (x # xs) i found_at = rfind_from c xs (i + 1) (if x = c then i else found_at)"

definition rfind :: "string \<Rightarrow> char \<Rightarrow> int" where
  "rfind s c = rfind_from c s 0 (- 1)"

text \<open>\<^verbatim>\<open>str.strip()\<close>: white space is removed at both ends. A character is
  taken as the code point of its number, and the white space below 256 is tab to
  carriage return, the four separators 28 to 31, the space, and the code points 133
  and 160.\<close>

definition is_space :: "char \<Rightarrow> bool" where
  "is_space c =
     (let n = (of_char c :: nat)
      in (9 \<le> n \<and> n \<le> 13) \<or> (28 \<le> n \<and> n \<le> 32) \<or> n = 133 \<or> n = 160)"

definition strip :: "string \<Rightarrow> string" where
  "strip s = rev (dropWhile is_space (rev (dropWhile is_space s)))"

text \<open>\<^verbatim>\<open>Config.CHUNK_SIZE\<close>, \<^verbatim>\<open>Config.CHUNK_OVERLAP\<close>, and \<^verbatim>\<open>x or default\<close> on an
  optional integer: \<^verbatim>\<open>None\<close> and zero both give the default.\<close>

definition config_chunk_size :: int where
  "config_chunk_size = 1000"

definition config_chunk_overlap :: int where
  "config_chunk_overlap = 200"

definition or_default :: "int option \<Rightarrow> int \<Rightarrow> int" where
  "or_default v d = (case v of None \<Rightarrow> d | Some n \<Rightarrow> if n = 0 then d else n)"

text \<open>
  One pass of the \<^verbatim>\<open>while\<close> loop: the chunk to append and the start index of the
  next pass. The comparison \<^verbatim>\<open>last_space > chunk_size * 0.8\<close> is made in the reals.
\<close>

definition chunk_step :: "string \<Rightarrow> int \<Rightarrow> int \<Rightarrow> int \<Rightarrow> string \<times> int" where
  "chunk_step text chunk_size overlap start =
     (let end = start + chunk_size;
          chunk = py_slice text start end;
          last_space = rfind chunk CHR '' ''
      in if end < int (length text) \<and> real_of_int last_space > real_of_int chunk_size * (8 / 10)
         then (strip (py_slice chunk 0 last_space), start + last_space - overlap)
         else (strip chunk, end - overlap))"

text \<open>
  The \<^verbatim>\<open>while\<close> loop. Nothing in the source bounds the number of passes, so the
  model counts them down from \<open>fuel\<close> and answers \<open>None\<close> when the fuel is spent
  before the loop has left.
\<close>

fun chunk_loop :: "nat \<Rightarrow> string \<Rightarrow> int \<Rightarrow> int \<Rightarrow> int \<Rightarrow> string list \<Rightarrow> string list option" where
  "chunk_loop 0 text chunk_size overlap start chunks = None"
| "chunk_loop (Suc fuel) text chunk_size overlap start chunks =
     (if start < int (length text)
      then (case chunk_step text chunk_size overlap start of
              (chunk, start') \<Rightarrow>
                (if start' \<ge> int (length text) then Some (chunks @ [chunk])
                 else chunk_loop fuel text chunk_size overlap start' (chunks @ [chunk])))
      else Some chunks)"

definition chunk_text :: "nat \<Rightarrow> string \<Rightarrow> int option \<Rightarrow> int option \<Rightarrow> string list option" where
  "chunk_text fuel text chunk_size overlap =
     (let chunk_size' = or_default chunk_size config_chunk_size;
          overlap' = or_default overlap config_chunk_overlap
      in if int (length text) \<le> chunk_size' then Some [text]
         else chunk_loop fuel text chunk_size' overlap' 0 [])"

section \<open>Worked examples\<close>

text \<open>A registry with two users; the first has two sessions, the second one.\<close>

definition ex_user :: "string \<Rightarrow> user" where
  "ex_user u = \<lparr>u_user_id = u, username = ''sam'', u_created_at = 0, last_login = 0,
                total_sessions = 2, u_metadata = []\<rparr>"

definition ex_session :: "string \<Rightarrow> string \<Rightarrow> chat_session" where
  "ex_session s u = \<lparr>cs_session_id = s, cs_user_id = u, cs_created_at = 0,
                     cs_last_activity = 0, cs_metadata = []\<rparr>"

definition ex_registry :: session_manager where
  "ex_registry =
     \<lparr>users = [(''u1'', ex_user ''u1''), (''u2'', ex_user ''u2'')],
      sessions = [(''s1'', ex_session ''s1'' ''u1''), (''s2'', ex_session ''s2'' ''u2''),
                  (''s3'', ex_session ''s3'' ''u1'')]\<rparr>"

text \<open>
  A collection of the list index holding two memories as \<^verbatim>\<open>store_memory\<close> writes
  them: a fact of importance 0.9 and a preference of importance 0.3.
\<close>

definition ex_collection :: "row list" where
  "ex_collection =
     [(''id-1'', ''I am allergic to peanuts'',
       (store_metadata 0 ''fact'' (9 / 10) None None None)(''timestamp'' \<mapsto> PFloat 0)),
      (''id-2'', ''I like tea'',
       (store_metadata 0 ''preference'' (3 / 10) None None None)(''timestamp'' \<mapsto> PFloat 0))]"

text \<open>Two retrievals, one after the other, on that collection.\<close>

definition ex_first_retrieval :: "pydict list \<times> row list" where
  "ex_first_retrieval =
     retrieve_memories (list_index (1 / 2)) ex_collection 1 ''food'' None None None"

definition ex_second_retrieval :: "pydict list \<times> row list" where
  "ex_second_retrieval =
     retrieve_memories (list_index (1 / 2)) (snd ex_first_retrieval) 2 ''food'' None None None"

text \<open>
  Two stores into an empty collection of the list index, and the record read
  back after the second: one with two plain tags and a context, one with a tag that
  contains a comma and an importance above 1.
\<close>

definition ex_store :: "error + (string \<times> row list)" where
  "ex_store =
     store_memory (list_index (1 / 2)) [] 0 ''id-1'' ''I am allergic to peanuts'' ''fact''
       (9 / 10) (Some [''health'', ''food'']) (Some ''chat'') None"

definition ex_tagged_store :: "error + (string \<times> row list)" where
  "ex_tagged_store =
     store_memory (list_index (1 / 2)) [] 0 ''id-7'' ''likes colours'' ''preference''
       (17 / 10) (Some [''red,green'']) None None"

definition ex_tagged_record :: pydict where
  "ex_tagged_record =
     record_of (fst (get_memory_by_id (list_index (1 / 2)) (snd (projr ex_tagged_store)) 1 ''id-7''))"

text \<open>
  Two identity pairs whose identifiers contain the separator, and a store under the
  first followed by a read under the second, on a client with no collections.
\<close>

definition ex_client :: "row list client" where
  "ex_client =
     client_after Map.empty
       (store_memory_as (list_index (1 / 2)) [] Map.empty ''a_session_b'' ''c'' 0 ''id-1''
          ''my card number is 1234'' ''fact'' (9 / 10) None None None)"

definition ex_cross_read :: pydict where
  "ex_cross_read =
     record_of (get_memory_by_id_as (list_index (1 / 2)) [] ex_client ''a'' ''b_session_c'' 1 ''id-1'')"

text \<open>
  An agent for the workflow examples: the analyzer is the one above, every store of
  a suggestion raises, and the language model answers or raises as the flag says.
\<close>

definition ex_agent :: "bool \<Rightarrow> unit agent" where
  "ex_agent llm_up =
     \<lparr>add_user_message = (\<lambda>msg w. (Inr (), w)),
      retrieve = (\<lambda>q w. (Inr [], w)),
      respond = (\<lambda>q ms w. (if llm_up then Inr ''Noted.'' else Inl (Upstream ''model down''), w)),
      add_assistant_message = (\<lambda>msg w. (Inr (), w)),
      analyze = (\<lambda>u r ms. Inr (analyze_for_memory_storage u)),
      store_memory_suggestion = (\<lambda>sg w. (Inl (Upstream ''index down''), w)),
      get_conversation_context = (\<lambda>w. Inr [])\<rparr>"

text \<open>
  A collection with one record written by \<^verbatim>\<open>add_memory\<close> directly, whose access
  count is a string, and one with a record whose importance is negative.
\<close>

definition ex_string_count :: "row list" where
  "ex_string_count =
     [(''id-5'', ''I like tea'',
       [''memory_type'' \<mapsto> PStr ''preference'', ''access_count'' \<mapsto> PStr ''3'',
        ''timestamp'' \<mapsto> PFloat 0])]"

definition ex_negative :: "row list" where
  "ex_negative =
     [(''id-8'', ''rumour'',
       [''memory_type'' \<mapsto> PStr ''fact'', ''importance'' \<mapsto> PFloat (- 1 / 2),
        ''timestamp'' \<mapsto> PFloat 0])]"

text \<open>
  A collection of six memories as \<^verbatim>\<open>store_memory\<close> writes them: facts of
  importance 0.9, 0.3, 0.8, 0.7 and 0.6, and a preference of importance 0.9 in third
  place.
\<close>

definition ex_row :: "string \<Rightarrow> string \<Rightarrow> string \<Rightarrow> real \<Rightarrow> row" where
  "ex_row memory_id content memory_type importance =
     (memory_id, content,
      (store_metadata 0 memory_type importance None None None)(''timestamp'' \<mapsto> PFloat 0))"

definition ex_library :: "row list" where
  "ex_library =
     [ex_row ''id-1'' ''I am allergic to peanuts'' ''fact'' (9 / 10),
      ex_row ''id-2'' ''It rained on Monday'' ''fact'' (3 / 10),
      ex_row ''id-3'' ''I like tea'' ''preference'' (9 / 10),
      ex_row ''id-4'' ''I work in Lyon'' ''fact'' (8 / 10),
      ex_row ''id-5'' ''My sister is Ana'' ''fact'' (7 / 10),
      ex_row ''id-6'' ''I cycle to work'' ''fact'' (6 / 10)]"

text \<open>A store of the empty content into an empty collection of the list index.\<close>

definition ex_empty_store :: "error + (string \<times> row list)" where
  "ex_empty_store =
     store_memory (list_index (1 / 2)) [] 0 ''id-9'' [] ''knowledge'' (1 / 2) None None None"

text \<open>A read by query under the second of the two colliding identity pairs.\<close>

definition ex_cross_retrieval :: "pydict list" where
  "ex_cross_retrieval =
     retrieve_memories_as (list_index (1 / 2)) [] ex_client ''a'' ''b_session_c'' 1
       ''card number'' None None None"

section \<open>Verified properties\<close>

lemma del_all_filter: "del_all d ks = filter (\<lambda>kv. fst kv \<notin> set ks) d"
  by (induction ks arbitrary: d) (auto simp: dict_del_def intro: filter_cong)

lemma delete_user_sessions:
  "dict_has (users sm) uid \<Longrightarrow>
   sessions (snd (delete_user sm uid)) =
     filter (\<lambda>kv. fst kv \<notin> fst ` {kv \<in> set (sessions sm). cs_user_id (snd kv) = uid}) (sessions sm)"
  by (simp add: delete_user_def Let_def del_all_filter)

subsection \<open>Session cascade\<close>

text \<open>
  Claim C7. For a user id in the registry, \<^verbatim>\<open>delete_user\<close> answers \<^verbatim>\<open>True\<close>,
  removes the user record and leaves no session whose \<^verbatim>\<open>user_id\<close> field is that id,
  however many there were (with the keys of the session dictionary distinct, as in
  any dictionary, exactly the sessions of other users remain); for an id not in the
  registry it answers \<^verbatim>\<open>False\<close> and the registry is unchanged.
\<close>

theorem delete_user_cascade:
  "(dict_has (users sm) uid \<longrightarrow>
      fst (delete_user sm uid) = True \<and>
      \<not> dict_has (users (snd (delete_user sm uid))) uid \<and>
      (\<forall>kv \<in> set (sessions (snd (delete_user sm uid))). cs_user_id (snd kv) \<noteq> uid) \<and>
      sessions_of (snd (delete_user sm uid)) uid = [] \<and>
      (distinct (map fst (sessions sm)) \<longrightarrow>
         sessions (snd (delete_user sm uid)) =
           filter (\<lambda>kv. cs_user_id (snd kv) \<noteq> uid) (sessions sm))) \<and>
   (\<not> dict_has (users sm) uid \<longrightarrow> delete_user sm uid = (False, sm))"
proof (intro conjI impI)
  assume "\<not> dict_has (users sm) uid"
  then show "delete_user sm uid = (False, sm)"
    by (simp add: delete_user_def)
next
  assume h: "dict_has (users sm) uid"
  show "fst (delete_user sm uid) = True"
    using h by (simp add: delete_user_def Let_def)
  show "\<not> dict_has (users (snd (delete_user sm uid))) uid"
    using h by (auto simp: delete_user_def Let_def dict_has_def dict_del_def)
  show gone: "\<forall>kv \<in> set (sessions (snd (delete_user sm uid))). cs_user_id (snd kv) \<noteq> uid"
    using h by (force simp: delete_user_sessions)
  show "sessions_of (snd (delete_user sm uid)) uid = []"
    using gone by (auto simp: sessions_of_def filter_empty_conv)
  assume d: "distinct (map fst (sessions sm))"
  have "fst kv \<notin> fst ` {kv \<in> set (sessions sm). cs_user_id (snd kv) = uid} \<longleftrightarrow>
        cs_user_id (snd kv) \<noteq> uid" if "kv \<in> set (sessions sm)" for kv
  proof
    assume "fst kv \<notin> fst ` {kv \<in> set (sessions sm). cs_user_id (snd kv) = uid}"
    with that show "cs_user_id (snd kv) \<noteq> uid" by force
  next
    assume ne: "cs_user_id (snd kv) \<noteq> uid"
    show "fst kv \<notin> fst ` {kv \<in> set (sessions sm). cs_user_id (snd kv) = uid}"
    proof
      assume "fst kv \<in> fst ` {kv \<in> set (sessions sm). cs_user_id (snd kv) = uid}"
      then obtain kv' where kv': "kv' \<in> set (sessions sm)" "cs_user_id (snd kv') = uid" "fst kv' = fst kv"
        by auto
      with d that have "kv' = kv"
        by (metis eq_key_imp_eq_value prod.collapse)
      with kv' ne show False by simp
    qed
  qed
  then show "sessions (snd (delete_user sm uid)) =
           filter (\<lambda>kv. cs_user_id (snd kv) \<noteq> uid) (sessions sm)"
    using h by (simp add: delete_user_sessions cong: filter_cong)
qed

text \<open>Deleting the first user of the example registry, and an unknown user.\<close>

theorem delete_user_cascade_witness:
  "dict_has (users ex_registry) ''u1'' \<and> distinct (map fst (sessions ex_registry)) \<and>
   fst (delete_user ex_registry ''u1'') = True \<and>
   sessions (snd (delete_user ex_registry ''u1'')) = [(''s2'', ex_session ''s2'' ''u2'')] \<and>
   \<not> dict_has (users ex_registry) ''u9'' \<and>
   delete_user ex_registry ''u9'' = (False, ex_registry)"
  using delete_user_cascade [of ex_registry "''u1''"] delete_user_cascade [of ex_registry "''u9''"]
  by (simp add: ex_registry_def dict_has_def ex_session_def)

subsection \<open>Suggestion analyzer\<close>




subsection \<open>Failure of the index\<close>

lemma search_memories_isl:
  assumes "\<forall>emb. isl (coll_query b c emb n)"
  shows "isl (search_memories b c q n t)"
proof (cases "embed_text b q")
  case (Inl e)
  then show ?thesis by (simp add: search_memories_def)
next
  case (Inr emb)
  from assms have "isl (coll_query b c emb n)"
    by blast
  then obtain e where "coll_query b c emb n = Inl e"
    by (auto simp: isl_def)
  with Inr show ?thesis by (simp add: search_memories_def)
qed

lemma add_memory_isl:
  assumes "\<forall>c memory_id doc md emb. isl (coll_add b c memory_id doc md emb)"
  shows "isl (add_memory b c now uuid text md)"
proof (cases "embed_text b text")
  case (Inl e)
  then show ?thesis by (simp add: add_memory_def)
next
  case (Inr emb)
  from assms have "isl (coll_add b c uuid text
      (if ''timestamp'' \<notin> dom md then md(''timestamp'' \<mapsto> PFloat now) else md) emb)"
    by blast
  then obtain e where "coll_add b c uuid text
      (if ''timestamp'' \<notin> dom md then md(''timestamp'' \<mapsto> PFloat now) else md) emb = Inl e"
    by (auto simp: isl_def)
  with Inr show ?thesis
    by (simp add: add_memory_def Let_def split del: if_split)
qed

text \<open>
  Claim C3. When every query and every write of the index raises, then for every
  input \<^verbatim>\<open>retrieve_memories\<close> returns the empty list (it does not raise, and the
  collection is as before), while \<^verbatim>\<open>store_memory\<close> raises: the failure reaches
  its caller.
\<close>

theorem index_failure_policy:
  assumes "\<forall>c emb n. isl (coll_query b c emb n)"
    and "\<forall>c memory_id doc md emb. isl (coll_add b c memory_id doc md emb)"
  shows "retrieve_memories b c now query memory_type max_results min_importance = ([], c) \<and>
         isl (store_memory b c now uuid content mtype importance tags context source)"
proof
  have "isl (search_memories b c query (effective_max max_results * 2) (Some similarity_threshold))"
    using assms(1) by (simp add: search_memories_isl)
  then have "isl (two_phase_search b c query (effective_max max_results))"
    by (auto simp: two_phase_search_def isl_def)
  then show "retrieve_memories b c now query memory_type max_results min_importance = ([], c)"
    by (auto simp: retrieve_memories_def isl_def)
next
  show "isl (store_memory b c now uuid content mtype importance tags context source)"
    using assms(2) by (simp add: store_memory_def add_memory_isl)
qed

text \<open>The index that raises on every call.\<close>

theorem index_failure_policy_witness:
  "(\<forall>c emb n. isl (coll_query broken_index c emb n)) \<and>
   (\<forall>c memory_id doc md emb. isl (coll_add broken_index c memory_id doc md emb)) \<and>
   retrieve_memories broken_index [] 0 ''peanuts'' None None None = ([], []) \<and>
   store_memory broken_index [] 0 ''id-1'' ''I am allergic to peanuts'' ''fact'' (9 / 10) None None None
     = Inl (Upstream ''index down'')"
proof -
  have q: "\<forall>c emb n. isl (coll_query broken_index c emb n)"
    by (simp add: broken_index_def)
  have a: "\<forall>c memory_id doc md emb. isl (coll_add broken_index c memory_id doc md emb)"
    by (simp add: broken_index_def)
  have s: "store_memory broken_index [] 0 ''id-1'' ''I am allergic to peanuts'' ''fact'' (9 / 10) None None None
     = Inl (Upstream ''index down'')"
    by (simp add: store_memory_def add_memory_def broken_index_def)
  show ?thesis
    using q a s index_failure_policy [OF q a, of "[]" 0 "''peanuts''" None None None]
    by simp
qed

subsection \<open>The filter loop\<close>

lemma filter_loop_shape:
  "filter_loop now mt mi mx ms acc = Inr rs \<Longrightarrow>
   \<exists>ms' rs'. rs = acc @ rs' \<and> subseq ms' ms \<and> list_all2 (\<lambda>r m. touch now m = Inr r) rs' ms' \<and>
     (\<forall>m \<in> set ms'. passes mt mi m)"
proof (induction ms arbitrary: acc)
  case Nil
  then show ?case by simp
next
  case (Cons m ms)
  show ?case
  proof (cases "passes mt mi m")
    case False
    then have "filter_loop now mt mi mx ms acc = Inr rs"
      using Cons.prems by (auto simp: passes_def split: if_splits sum.splits bool.splits)
    from Cons.IH [OF this] obtain ms' rs' where
      h: "rs = acc @ rs'" "subseq ms' ms" "list_all2 (\<lambda>r m. touch now m = Inr r) rs' ms'"
         "\<forall>m \<in> set ms'. passes mt mi m"
      by blast
    from h(2) have "subseq ms' (m # ms)"
      by (rule list_emb_Cons)
    with h show ?thesis by blast
  next
    case True
    then obtain n where n: "py_succ (f_metadata m ''access_count'') = Inr n"
      using Cons.prems by (auto simp: passes_def split: sum.splits)
    define r where "r = memory_result m ((f_metadata m)(''last_accessed'' \<mapsto> PFloat now, ''access_count'' \<mapsto> n))"
    have b: "touch now m = Inr r"
      using n by (simp add: touch_def r_def)
    show ?thesis
    proof (cases "int (length (acc @ [r])) \<ge> mx")
      case True
      then have "rs = acc @ [r]"
        using Cons.prems \<open>passes mt mi m\<close> n by (simp add: passes_def r_def Let_def)
      moreover have "subseq [m] (m # ms)" by simp
      ultimately show ?thesis
        using b \<open>passes mt mi m\<close>
        by (intro exI [of _ "[m]"] exI [of _ "[r]"]) simp
    next
      case False
      then have "filter_loop now mt mi mx ms (acc @ [r]) = Inr rs"
        using Cons.prems \<open>passes mt mi m\<close> n by (simp add: passes_def r_def Let_def)
      from Cons.IH [OF this] obtain ms' rs' where
        h: "rs = (acc @ [r]) @ rs'" "subseq ms' ms" "list_all2 (\<lambda>r m. touch now m = Inr r) rs' ms'"
           "\<forall>m \<in> set ms'. passes mt mi m"
        by blast
      show ?thesis
        using h b \<open>passes mt mi m\<close>
        by (intro exI [of _ "m # ms'"] exI [of _ "r # rs'"]) simp
    qed
  qed
qed

lemma filter_loop_length:
  "filter_loop now mt mi mx ms acc = Inr rs \<Longrightarrow> int (length acc) < mx \<Longrightarrow> int (length rs) \<le> mx"
proof (induction ms arbitrary: acc)
  case Nil
  then show ?case by simp
next
  case (Cons m ms)
  then show ?case
    by (auto simp: Let_def split: if_splits sum.splits bool.splits)
qed


subsection \<open>Retrieval: filters, order and limit\<close>

lemma touch_fields:
  assumes "touch now m = Inr r"
  shows "r ''memory_type'' = f_metadata m ''memory_type''"
    and "r ''importance'' = f_metadata m ''importance''"
    and "r ''last_accessed'' = Some (PFloat now)"
    and "py_succ (f_metadata m ''access_count'') = Inr (the (r ''access_count''))"
    and "r ''access_count'' \<noteq> None"
  using assms
  by (auto simp: touch_def memory_result_def map_add_def split: sum.splits option.splits)

lemma retrieve_shape:
  assumes "two_phase_search b c query (effective_max mr) = Inr memories"
  shows "\<exists>ms'. subseq ms' memories \<and>
           list_all2 (\<lambda>r m. touch now m = Inr r) (fst (retrieve_memories b c now query mt mr mi)) ms' \<and>
           (\<forall>m \<in> set ms'. passes mt mi m)"
proof (cases "filter_loop now mt mi (effective_max mr) memories []")
  case (Inl e)
  then have "fst (retrieve_memories b c now query mt mr mi) = []"
    using assms by (simp add: retrieve_memories_def)
  then show ?thesis
    by (intro exI [of _ "[]"]) simp
next
  case (Inr rs)
  then have "fst (retrieve_memories b c now query mt mr mi) = rs"
    using assms by (simp add: retrieve_memories_def)
  with filter_loop_shape [OF Inr] show ?thesis
    by auto
qed

lemma retrieve_length:
  assumes "0 < effective_max mr"
  shows "int (length (fst (retrieve_memories b c now query mt mr mi))) \<le> effective_max mr"
proof (cases "two_phase_search b c query (effective_max mr)")
  case (Inl e)
  then show ?thesis using assms by (simp add: retrieve_memories_def)
next
  case (Inr memories)
  show ?thesis
  proof (cases "filter_loop now mt mi (effective_max mr) memories []")
    case (Inl e)
    then show ?thesis using Inr assms by (simp add: retrieve_memories_def)
  next
    case r: (Inr rs)
    from filter_loop_length [OF r] assms have "int (length rs) \<le> effective_max mr"
      by simp
    then show ?thesis using Inr r by (simp add: retrieve_memories_def)
  qed
qed

lemma retrieve_from_search:
  "\<forall>r \<in> set (fst (retrieve_memories b c now query mt mr mi)).
     \<exists>memories m. two_phase_search b c query (effective_max mr) = Inr memories \<and>
        m \<in> set memories \<and> passes mt mi m \<and> touch now m = Inr r"
proof (cases "two_phase_search b c query (effective_max mr)")
  case (Inl e)
  then show ?thesis by (simp add: retrieve_memories_def)
next
  case (Inr memories)
  from retrieve_shape [OF Inr, of now mt mi] obtain ms' where
    h: "subseq ms' memories"
       "list_all2 (\<lambda>r m. touch now m = Inr r) (fst (retrieve_memories b c now query mt mr mi)) ms'"
       "\<forall>m \<in> set ms'. passes mt mi m"
    by blast
  show ?thesis
  proof
    fix r assume "r \<in> set (fst (retrieve_memories b c now query mt mr mi))"
    then obtain i where i: "i < length (fst (retrieve_memories b c now query mt mr mi))"
        "r = fst (retrieve_memories b c now query mt mr mi) ! i"
      by (auto simp: in_set_conv_nth)
    define m where "m = ms' ! i"
    from h(2) i have m: "m \<in> set ms'" "touch now m = Inr r"
      by (simp_all add: m_def list_all2_conv_all_nth)
    moreover from h(1) m(1) obtain y where "y \<in> set memories" "m = y"
      by (rule list_emb_set)
    ultimately show "\<exists>memories m. two_phase_search b c query (effective_max mr) = Inr memories \<and>
        m \<in> set memories \<and> passes mt mi m \<and> touch now m = Inr r"
      using Inr h(3) by blast
  qed
qed

text \<open>
  Claim C6, as amended. Every record returned by \<^verbatim>\<open>retrieve_memories\<close> has the
  requested \<^verbatim>\<open>memory_type\<close> when the filter is a non-empty string, and an importance
  not below \<^verbatim>\<open>min_importance\<close> when the floor is given and not zero. The returned
  records are built, in order, from a subsequence of the list the search returned.
  The list is no longer than \<^verbatim>\<open>max_results\<close> when that is a positive integer, and no
  longer than the configured default when \<^verbatim>\<open>max_results\<close> is not given.
\<close>

theorem retrieve_filters_in_order:
  "(\<forall>n. mr = Some n \<and> 0 < n \<longrightarrow>
      int (length (fst (retrieve_memories b c now query mt mr mi))) \<le> n) \<and>
   (mr = None \<longrightarrow>
      int (length (fst (retrieve_memories b c now query mt mr mi))) \<le> max_memories) \<and>
   (\<forall>r \<in> set (fst (retrieve_memories b c now query mt mr mi)).
      (truthy mt \<longrightarrow> r ''memory_type'' = Some (PStr (the mt))) \<and>
      (\<forall>x. mi = Some x \<and> x \<noteq> 0 \<longrightarrow> py_lt (r ''importance'') x = Inr False)) \<and>
   (\<forall>memories. two_phase_search b c query (effective_max mr) = Inr memories \<longrightarrow>
      (\<exists>ms'. subseq ms' memories \<and>
         list_all2 (\<lambda>r m. touch now m = Inr r)
           (fst (retrieve_memories b c now query mt mr mi)) ms'))"
proof (intro conjI impI allI ballI)
  fix n assume "mr = Some n \<and> 0 < n"
  then have "0 < effective_max mr" "effective_max mr = n"
    by (simp_all add: effective_max_def)
  with retrieve_length [of mr b c now query mt mi]
  show "int (length (fst (retrieve_memories b c now query mt mr mi))) \<le> n"
    by simp
next
  assume "mr = None"
  then have "0 < effective_max mr" "effective_max mr = max_memories"
    by (simp_all add: effective_max_def max_memories_def)
  with retrieve_length [of mr b c now query mt mi]
  show "int (length (fst (retrieve_memories b c now query mt mr mi))) \<le> max_memories"
    by simp
next
  fix r assume r: "r \<in> set (fst (retrieve_memories b c now query mt mr mi))"
  with retrieve_from_search [of b c now query mt mr mi] obtain m where
    m: "passes mt mi m" "touch now m = Inr r"
    by blast
  {
    assume "truthy mt"
    then show "r ''memory_type'' = Some (PStr (the mt))"
      using m by (auto simp: truthy_def passes_def type_rejects_def touch_fields(1) split: option.splits)
  next
    fix x assume "mi = Some x \<and> x \<noteq> 0"
    then show "py_lt (r ''importance'') x = Inr False"
      using m by (auto simp: passes_def importance_rejects_def touch_fields(2))
  }
next
  fix memories assume "two_phase_search b c query (effective_max mr) = Inr memories"
  from retrieve_shape [OF this, of now mt mi]
  show "\<exists>ms'. subseq ms' memories \<and>
         list_all2 (\<lambda>r m. touch now m = Inr r)
           (fst (retrieve_memories b c now query mt mr mi)) ms'"
    by blast
qed

text \<open>The equations that evaluate a retrieval on the example collection.\<close>

lemmas ex_eval = retrieve_memories_def two_phase_search_def search_memories_def list_index_def
      ex_collection_def effective_max_def max_memories_def similarity_threshold_def
      type_rejects_def importance_rejects_def store_metadata_def opt_key_def Let_def
      memory_result_def truthy_def

text \<open>The same for the collections of six and of one.\<close>

lemmas library_eval = ex_eval ex_library_def ex_row_def ex_negative_def

text \<open>
  Claim C6 as stated fails where an argument is given but falsy. With the type filter
  the empty string, a fact is returned; with the floor 0, a record of importance
  -0.5 is returned; and with the type filter \<^verbatim>\<open>fact\<close> and \<^verbatim>\<open>max_results=0\<close>, five
  records are returned.
\<close>

theorem retrieve_filters_counterexample:
  "hd (fst (retrieve_memories (list_index (1 / 2)) ex_library 1 ''food'' (Some []) (Some 3) None))
     ''memory_type'' = Some (PStr ''fact'') \<and>
   hd (fst (retrieve_memories (list_index (1 / 2)) ex_negative 1 ''news'' None (Some 3) (Some 0)))
     ''importance'' = Some (PFloat (- 1 / 2)) \<and>
   length (fst (retrieve_memories (list_index (1 / 2)) ex_library 1 ''food'' (Some ''fact'') (Some 0) None))
     = 5"
  by (simp add: library_eval)

lemma ex_limited:
  "length (fst (retrieve_memories (list_index (1 / 2)) ex_library 1 ''food'' (Some ''fact'') (Some 3) (Some (1 / 2)))) = 3 \<and>
   (fst (retrieve_memories (list_index (1 / 2)) ex_library 1 ''food'' (Some ''fact'') (Some 3) (Some (1 / 2))) ! 0) ''id''
     = Some (PStr ''id-1'') \<and>
   (fst (retrieve_memories (list_index (1 / 2)) ex_library 1 ''food'' (Some ''fact'') (Some 3) (Some (1 / 2))) ! 1) ''id''
     = Some (PStr ''id-4'') \<and>
   (fst (retrieve_memories (list_index (1 / 2)) ex_library 1 ''food'' (Some ''fact'') (Some 3) (Some (1 / 2))) ! 2) ''id''
     = Some (PStr ''id-5'')"
  by (simp add: library_eval)

text \<open>
  Type filter \<^verbatim>\<open>fact\<close>, floor 0.5 and limit 3 on the collection of six: the second
  record falls to the floor, the third to the type filter, the sixth to the limit.
\<close>

theorem retrieve_filters_in_order_witness:
  "(0 :: int) < 3 \<and> truthy (Some ''fact'') \<and> (1 / 2 :: real) \<noteq> 0 \<and>
   \<not> isl (two_phase_search (list_index (1 / 2)) ex_library ''food'' (effective_max (Some 3))) \<and>
   length (fst (retrieve_memories (list_index (1 / 2)) ex_library 1 ''food'' (Some ''fact'') (Some 3) (Some (1 / 2)))) = 3 \<and>
   (fst (retrieve_memories (list_index (1 / 2)) ex_library 1 ''food'' (Some ''fact'') (Some 3) (Some (1 / 2))) ! 0) ''id''
     = Some (PStr ''id-1'') \<and>
   (fst (retrieve_memories (list_index (1 / 2)) ex_library 1 ''food'' (Some ''fact'') (Some 3) (Some (1 / 2))) ! 1) ''id''
     = Some (PStr ''id-4'') \<and>
   (fst (retrieve_memories (list_index (1 / 2)) ex_library 1 ''food'' (Some ''fact'') (Some 3) (Some (1 / 2))) ! 2) ''id''
     = Some (PStr ''id-5'') \<and>
   (fst (retrieve_memories (list_index (1 / 2)) ex_library 1 ''food'' (Some ''fact'') (Some 3) (Some (1 / 2))) ! 2) ''memory_type''
     = Some (PStr ''fact'') \<and>
   py_lt ((fst (retrieve_memories (list_index (1 / 2)) ex_library 1 ''food'' (Some ''fact'') (Some 3) (Some (1 / 2))) ! 2) ''importance'') (1 / 2)
     = Inr False"
proof -
  let ?rs = "fst (retrieve_memories (list_index (1 / 2)) ex_library 1 ''food'' (Some ''fact'') (Some 3) (Some (1 / 2)))"
  have l: "length ?rs = 3"
    using ex_limited by simp
  then have m: "?rs ! 2 \<in> set ?rs"
    by simp
  have s: "\<not> isl (two_phase_search (list_index (1 / 2)) ex_library ''food'' (effective_max (Some 3)))"
    by (simp add: library_eval)
  have t: "truthy (Some ''fact'')"
    by (simp add: truthy_def)
  note th = retrieve_filters_in_order [of "Some 3" "list_index (1 / 2)" ex_library 1 "''food''" "Some ''fact''" "Some (1 / 2)"]
  from th m t have a: "(?rs ! 2) ''memory_type'' = Some (PStr ''fact'')"
    by force
  from th m have b: "py_lt ((?rs ! 2) ''importance'') (1 / 2) = Inr False"
    by force
  from th have "int (length ?rs) \<le> 3"
    by simp
  show ?thesis
    using ex_limited s t a b by simp
qed


subsection \<open>Retrieval: the fallback without threshold\<close>

lemma collect_hits_None: "collect_hits None hs =
   map (\<lambda>h. \<lparr>f_text = h_document h, f_metadata = h_metadata h,
              f_similarity = 1 - h_distance h, f_id = h_id h\<rparr>) hs"
  by (induction hs) (simp_all add: Let_def)

lemma collect_hits_metadata:
  "m \<in> set (collect_hits t hs) \<Longrightarrow> \<exists>h \<in> set hs. f_metadata m = h_metadata h"
  by (induction hs) (auto simp: Let_def split: if_splits)

lemma no_filter_passes:
  "\<not> truthy mt \<Longrightarrow> mi = None \<or> mi = Some 0 \<Longrightarrow> passes mt mi m"
  by (auto simp: passes_def truthy_def type_rejects_def importance_rejects_def split: option.splits)

lemma filter_loop_answers:
  assumes "\<forall>m \<in> set ms. passes mt mi m \<and> \<not> isl (py_succ (f_metadata m ''access_count''))"
  shows "\<exists>rs. filter_loop now mt mi mx ms acc = Inr rs \<and> (ms \<noteq> [] \<or> acc \<noteq> [] \<longrightarrow> rs \<noteq> [])"
  using assms
proof (induction ms arbitrary: acc)
  case Nil
  then show ?case by simp
next
  case (Cons m ms)
  then obtain n where n: "py_succ (f_metadata m ''access_count'') = Inr n"
    by (cases "py_succ (f_metadata m ''access_count'')") auto
  define r where "r = memory_result m ((f_metadata m)(''last_accessed'' \<mapsto> PFloat now, ''access_count'' \<mapsto> n))"
  have p: "passes mt mi m" using Cons.prems by simp
  show ?case
  proof (cases "int (length (acc @ [r])) \<ge> mx")
    case True
    then have "filter_loop now mt mi mx (m # ms) acc = Inr (acc @ [r])"
      using p n by (simp add: passes_def r_def Let_def)
    then show ?thesis by simp
  next
    case False
    then have e: "filter_loop now mt mi mx (m # ms) acc = filter_loop now mt mi mx ms (acc @ [r])"
      using p n by (simp add: passes_def r_def Let_def)
    from Cons.prems have "\<forall>m \<in> set ms. passes mt mi m \<and> \<not> isl (py_succ (f_metadata m ''access_count''))"
      by simp
    from Cons.IH [OF this, of "acc @ [r]"] e show ?thesis
      by auto
  qed
qed

lemma fallback_fires:
  assumes "search_memories b c query (m * 2) (Some similarity_threshold) = Inr []"
  shows "two_phase_search b c query m = search_memories b c query m None"
  using assms by (simp add: two_phase_search_def)

text \<open>
  Claim C1, as amended. Whenever the first search (twice the limit, at the
  configured threshold) returns no record, \<^verbatim>\<open>retrieve_memories\<close> searches again with
  the limit and no threshold, whatever the filters, and its result is computed from
  that second search. Consequently, when the index answers, the search that is used
  has at least one hit (the first, or else the one without threshold), the access
  count of every hit is a number or absent, and neither filter is in force, the
  returned list is not empty.
\<close>

theorem threshold_fallback:
  "(search_memories b c query (effective_max mr * 2) (Some similarity_threshold) = Inr [] \<longrightarrow>
      two_phase_search b c query (effective_max mr)
        = search_memories b c query (effective_max mr) None \<and>
      fst (retrieve_memories b c now query mt mr mi)
        = (case search_memories b c query (effective_max mr) None of
             Inl e \<Rightarrow> []
           | Inr memories \<Rightarrow>
               (case filter_loop now mt mi (effective_max mr) memories [] of
                  Inl e \<Rightarrow> [] | Inr filtered_memories \<Rightarrow> filtered_memories))) \<and>
   (embed_text b query = Inr emb \<and>
    coll_query b c emb (effective_max mr * 2) = Inr hs1 \<and>
    (\<forall>h \<in> set hs1. \<not> isl (py_succ (h_metadata h ''access_count''))) \<and>
    (collect_hits (Some similarity_threshold) hs1 = [] \<longrightarrow>
       coll_query b c emb (effective_max mr) = Inr hs2 \<and> hs2 \<noteq> [] \<and>
       (\<forall>h \<in> set hs2. \<not> isl (py_succ (h_metadata h ''access_count'')))) \<and>
    \<not> truthy mt \<and> (mi = None \<or> mi = Some 0) \<longrightarrow>
    fst (retrieve_memories b c now query mt mr mi) \<noteq> [])"
proof (intro conjI impI)
  assume e: "search_memories b c query (effective_max mr * 2) (Some similarity_threshold) = Inr []"
  then show f: "two_phase_search b c query (effective_max mr)
        = search_memories b c query (effective_max mr) None"
    by (rule fallback_fires)
  show "fst (retrieve_memories b c now query mt mr mi)
        = (case search_memories b c query (effective_max mr) None of
             Inl e \<Rightarrow> []
           | Inr memories \<Rightarrow>
               (case filter_loop now mt mi (effective_max mr) memories [] of
                  Inl e \<Rightarrow> [] | Inr filtered_memories \<Rightarrow> filtered_memories))"
    unfolding retrieve_memories_def Let_def f
    by (simp split: sum.splits)
next
  assume h: "embed_text b query = Inr emb \<and>
    coll_query b c emb (effective_max mr * 2) = Inr hs1 \<and>
    (\<forall>h \<in> set hs1. \<not> isl (py_succ (h_metadata h ''access_count''))) \<and>
    (collect_hits (Some similarity_threshold) hs1 = [] \<longrightarrow>
       coll_query b c emb (effective_max mr) = Inr hs2 \<and> hs2 \<noteq> [] \<and>
       (\<forall>h \<in> set hs2. \<not> isl (py_succ (h_metadata h ''access_count'')))) \<and>
    \<not> truthy mt \<and> (mi = None \<or> mi = Some 0)"
  have s1: "search_memories b c query (effective_max mr * 2) (Some similarity_threshold)
              = Inr (collect_hits (Some similarity_threshold) hs1)"
    using h by (simp add: search_memories_def)
  define memories where "memories =
     (if collect_hits (Some similarity_threshold) hs1 = [] then collect_hits None hs2
      else collect_hits (Some similarity_threshold) hs1)"
  have t: "two_phase_search b c query (effective_max mr) = Inr memories"
  proof (cases "collect_hits (Some similarity_threshold) hs1 = []")
    case True
    with h have "search_memories b c query (effective_max mr) None = Inr (collect_hits None hs2)"
      by (simp add: search_memories_def)
    with True s1 show ?thesis
      by (simp add: two_phase_search_def memories_def)
  next
    case False
    with s1 show ?thesis
      by (simp add: two_phase_search_def memories_def)
  qed
  have ne: "memories \<noteq> []"
    using h by (auto simp: memories_def collect_hits_None)
  have "\<forall>m \<in> set memories. passes mt mi m \<and> \<not> isl (py_succ (f_metadata m ''access_count''))"
  proof
    fix m assume m: "m \<in> set memories"
    have "\<exists>h'. (h' \<in> set hs1 \<or> (collect_hits (Some similarity_threshold) hs1 = [] \<and> h' \<in> set hs2))
            \<and> f_metadata m = h_metadata h'"
    proof (cases "collect_hits (Some similarity_threshold) hs1 = []")
      case True
      with m have "m \<in> set (collect_hits None hs2)" by (simp add: memories_def)
      from collect_hits_metadata [OF this] True show ?thesis by blast
    next
      case False
      with m have "m \<in> set (collect_hits (Some similarity_threshold) hs1)" by (simp add: memories_def)
      from collect_hits_metadata [OF this] show ?thesis by blast
    qed
    then obtain h' where "h' \<in> set hs1 \<or> (collect_hits (Some similarity_threshold) hs1 = [] \<and> h' \<in> set hs2)"
      "f_metadata m = h_metadata h'"
      by blast
    with h have "\<not> isl (py_succ (f_metadata m ''access_count''))"
      by auto
    moreover from h have "passes mt mi m"
      by (intro no_filter_passes) simp_all
    ultimately show "passes mt mi m \<and> \<not> isl (py_succ (f_metadata m ''access_count''))"
      by simp
  qed
  from filter_loop_answers [OF this, of now "effective_max mr" "[]"] ne
  obtain rs where "filter_loop now mt mi (effective_max mr) memories [] = Inr rs" "rs \<noteq> []"
    by auto
  with t show "fst (retrieve_memories b c now query mt mr mi) \<noteq> []"
    by (simp add: retrieve_memories_def)
qed

text \<open>
  Claim C1 as stated fails for a record whose access count is a string: the index
  holds it and answers the query with it, the increment raises, the handler of
  \<^verbatim>\<open>retrieve_memories\<close> catches, and the list returned is empty.
\<close>

theorem string_access_count_counterexample:
  "embed_text (list_index (1 / 2)) ''tea'' = Inr [3] \<and>
   coll_query (list_index (1 / 2)) ex_string_count [3] (effective_max None) =
     Inr [\<lparr>h_id = ''id-5'', h_document = ''I like tea'',
           h_metadata = snd (snd (hd ex_string_count)), h_distance = 1 / 2\<rparr>] \<and>
   fst (retrieve_memories (list_index (1 / 2)) ex_string_count 1 ''tea'' None None None) = []"
  by (simp add: ex_eval ex_string_count_def)

text \<open>
  The example collection behind an index that puts every row at distance 1
  (similarity 0, below the threshold 0.2): the first search is empty and the fallback
  returns both records.
\<close>

theorem threshold_fallback_witness:
  "search_memories (list_index 1) ex_collection ''food'' (effective_max None * 2)
     (Some similarity_threshold) = Inr [] \<and>
   embed_text (list_index 1) ''food'' = Inr [4] \<and>
   \<not> isl (coll_query (list_index 1) ex_collection [4] (effective_max None * 2)) \<and>
   projr (coll_query (list_index 1) ex_collection [4] (effective_max None)) \<noteq> [] \<and>
   \<not> truthy None \<and>
   collect_hits (Some similarity_threshold)
     (projr (coll_query (list_index 1) ex_collection [4] (effective_max None * 2))) = [] \<and>
   two_phase_search (list_index 1) ex_collection ''food'' (effective_max None)
     = search_memories (list_index 1) ex_collection ''food'' (effective_max None) None \<and>
   length (fst (retrieve_memories (list_index 1) ex_collection 1 ''food'' None None None)) = 2"
proof -
  have s: "search_memories (list_index 1) ex_collection ''food'' (effective_max None * 2)
     (Some similarity_threshold) = Inr []"
    by (simp add: ex_eval)
  have e: "embed_text (list_index 1) ''food'' = Inr [4]"
    by (simp add: list_index_def)
  have q1: "coll_query (list_index 1) ex_collection [4] (effective_max None * 2) =
      Inr (projr (coll_query (list_index 1) ex_collection [4] (effective_max None * 2)))"
    by (simp add: list_index_def)
  have q2: "coll_query (list_index 1) ex_collection [4] (effective_max None) =
      Inr (projr (coll_query (list_index 1) ex_collection [4] (effective_max None)))"
    by (simp add: list_index_def)
  have ne: "projr (coll_query (list_index 1) ex_collection [4] (effective_max None)) \<noteq> []"
    by (simp add: ex_eval)
  have ty1: "\<forall>h \<in> set (projr (coll_query (list_index 1) ex_collection [4] (effective_max None * 2))).
            \<not> isl (py_succ (h_metadata h ''access_count''))"
    by (simp add: ex_eval)
  have ty2: "\<forall>h \<in> set (projr (coll_query (list_index 1) ex_collection [4] (effective_max None))).
            \<not> isl (py_succ (h_metadata h ''access_count''))"
    by (simp add: ex_eval)
  have nt: "\<not> truthy None"
    by (simp add: truthy_def)
  have emp: "collect_hits (Some similarity_threshold)
     (projr (coll_query (list_index 1) ex_collection [4] (effective_max None * 2))) = []"
    by (simp add: ex_eval)
  have len: "length (fst (retrieve_memories (list_index 1) ex_collection 1 ''food'' None None None)) = 2"
    by (simp add: ex_eval)
  have ni: "\<not> isl (coll_query (list_index 1) ex_collection [4] (effective_max None * 2))"
    by (simp add: list_index_def)
  note t = threshold_fallback [of "list_index 1" ex_collection "''food''" None 1 None None "[4]"
      "projr (coll_query (list_index 1) ex_collection [4] (effective_max None * 2))"
      "projr (coll_query (list_index 1) ex_collection [4] (effective_max None))"]
  from t s have f: "two_phase_search (list_index 1) ex_collection ''food'' (effective_max None)
     = search_memories (list_index 1) ex_collection ''food'' (effective_max None) None"
    by blast
  from t e q1 q2 ne ty1 ty2 nt
  have "fst (retrieve_memories (list_index 1) ex_collection 1 ''food'' None None None) \<noteq> []"
    by blast
  show ?thesis
    by (intro conjI s e ni ne nt emp f len)
qed


subsection \<open>Retrieval: access bookkeeping\<close>

lemma retrieval_reads_only: "snd (retrieve_memories b c now query mt mr mi) = c"
  by (simp add: retrieve_memories_def Let_def split: sum.splits)

lemma get_reads_only: "snd (get_memory_by_id b c now mid) = c"
  by (simp add: get_memory_by_id_def split: option.splits sum.splits prod.splits)

lemma retrievals_read_only:
  "fold (\<lambda>q c'. snd (retrieve_memories b c' now q mt mr mi)) qs c = c"
  by (induction qs) (simp_all add: retrieval_reads_only)

text \<open>
  Claim C5, as amended. The access bookkeeping is done on the copies a retrieval
  returns: each returned record carries \<^verbatim>\<open>last_accessed\<close> set to the time of the call
  and an \<^verbatim>\<open>access_count\<close> one above the count stored in the index. Nothing is
  written back: \<^verbatim>\<open>retrieve_memories\<close> and \<^verbatim>\<open>get_memory_by_id\<close> leave the collection
  as it was, and so does any sequence of retrievals, so a stored record's
  \<^verbatim>\<open>access_count\<close> keeps the value it was stored with.
\<close>

theorem access_bookkeeping_on_copies:
  "snd (retrieve_memories b c now query mt mr mi) = c \<and>
   snd (get_memory_by_id b c now mid) = c \<and>
   fold (\<lambda>q c'. snd (retrieve_memories b c' now q mt mr mi)) qs c = c \<and>
   (\<forall>r \<in> set (fst (retrieve_memories b c now query mt mr mi)).
      \<exists>memories m. two_phase_search b c query (effective_max mr) = Inr memories \<and>
        m \<in> set memories \<and> touch now m = Inr r \<and>
        r ''last_accessed'' = Some (PFloat now) \<and> r ''access_count'' \<noteq> None \<and>
        py_succ (f_metadata m ''access_count'') = Inr (the (r ''access_count'')))"
proof (intro conjI ballI)
  fix r assume "r \<in> set (fst (retrieve_memories b c now query mt mr mi))"
  with retrieve_from_search [of b c now query mt mr mi] obtain memories m where
    m: "two_phase_search b c query (effective_max mr) = Inr memories" "m \<in> set memories"
       "touch now m = Inr r"
    by blast
  from touch_fields(3-5) [OF m(3)] m
  show "\<exists>memories m. two_phase_search b c query (effective_max mr) = Inr memories \<and>
        m \<in> set memories \<and> touch now m = Inr r \<and>
        r ''last_accessed'' = Some (PFloat now) \<and> r ''access_count'' \<noteq> None \<and>
        py_succ (f_metadata m ''access_count'') = Inr (the (r ''access_count''))"
    by blast
qed (rule retrieval_reads_only get_reads_only retrievals_read_only)+

lemma ex_first: "ex_first_retrieval =
   (fst ex_first_retrieval, ex_collection)"
  by (simp add: ex_first_retrieval_def retrieval_reads_only prod_eq_iff)

text \<open>
  Claim C5 as stated fails: the record returned by a first retrieval is returned by a
  second one with \<^verbatim>\<open>access_count\<close> 1 again, and the stored count is still 0.
\<close>

theorem access_count_counterexample:
  "hd (fst ex_first_retrieval) ''id'' = Some (PStr ''id-1'') \<and>
   hd (fst ex_first_retrieval) ''access_count'' = Some (PInt 1) \<and>
   hd (fst ex_second_retrieval) ''id'' = Some (PStr ''id-1'') \<and>
   hd (fst ex_second_retrieval) ''access_count'' = Some (PInt 1) \<and>
   snd (snd (hd (snd ex_second_retrieval))) ''access_count'' = Some (PInt 0)"
proof -
  have s: "snd ex_first_retrieval = ex_collection"
    by (simp add: ex_first_retrieval_def retrieval_reads_only)
  have "snd ex_second_retrieval = ex_collection"
    by (simp add: ex_second_retrieval_def s retrieval_reads_only)
  then have "snd (snd (hd (snd ex_second_retrieval))) ''access_count'' = Some (PInt 0)"
    by (simp add: ex_collection_def store_metadata_def opt_key_def)
  moreover have "hd (fst ex_first_retrieval) ''id'' = Some (PStr ''id-1'')"
    "hd (fst ex_first_retrieval) ''access_count'' = Some (PInt 1)"
    by (simp_all add: ex_first_retrieval_def ex_eval)
  moreover have "hd (fst ex_second_retrieval) ''id'' = Some (PStr ''id-1'')"
    "hd (fst ex_second_retrieval) ''access_count'' = Some (PInt 1)"
    unfolding ex_second_retrieval_def s by (simp_all add: ex_eval)
  ultimately show ?thesis by simp
qed

text \<open>The first retrieval on the example collection.\<close>

theorem access_bookkeeping_on_copies_witness:
  "hd (fst ex_first_retrieval) \<in> set (fst ex_first_retrieval) \<and>
   snd ex_first_retrieval = ex_collection \<and>
   hd (fst ex_first_retrieval) ''last_accessed'' = Some (PFloat 1) \<and>
   hd (fst ex_first_retrieval) ''access_count'' = Some (PInt 1)"
proof -
  have l: "length (fst ex_first_retrieval) = 2"
    by (simp add: ex_first_retrieval_def ex_eval)
  then have m: "hd (fst ex_first_retrieval) \<in> set (fst ex_first_retrieval)"
    by (cases "fst ex_first_retrieval") simp_all
  have a: "hd (fst ex_first_retrieval) ''access_count'' = Some (PInt 1)"
    by (simp add: ex_first_retrieval_def ex_eval)
  from access_bookkeeping_on_copies [of "list_index (1 / 2)" ex_collection 1 "''food''" None None None "''id-1''" "[]"]
  show ?thesis
    using m a unfolding ex_first_retrieval_def [symmetric] by auto
qed


subsection \<open>Store and read back\<close>

lemma spec_split_plain: "sep \<notin> set w \<Longrightarrow> spec_split sep w = [w]"
  by (induction w) auto

lemma spec_split_append:
  "sep \<notin> set w \<Longrightarrow> spec_split sep (w @ sep # rest) = w # spec_split sep rest"
  by (induction w) auto

lemma split_join:
  "ts \<noteq> [] \<Longrightarrow> \<forall>t \<in> set ts. sep \<notin> set t \<Longrightarrow> spec_split sep (join [sep] ts) = ts"
proof (induction "[sep]" ts rule: join.induct)
  case 1
  then show ?case by simp
next
  case (2 x)
  then show ?case by (simp add: spec_split_plain)
next
  case (3 x y ys)
  then show ?case by (simp add: spec_split_append)
qed

lemma spec_split_not_Nil: "spec_split sep s \<noteq> []"
  by (induction s) (auto split: list.splits)

lemma length_spec_split: "length (spec_split sep s) = Suc (count_list s sep)"
proof (induction s)
  case Nil
  then show ?case by simp
next
  case (Cons c cs)
  then show ?case
    using spec_split_not_Nil [of sep cs] by (auto split: list.splits)
qed

lemma count_list_append: "count_list (xs @ ys) x = count_list xs x + count_list ys x"
  by (induction xs) simp_all

lemma count_join:
  "ts \<noteq> [] \<Longrightarrow>
   Suc (count_list (join [sep] ts) sep) = length ts + sum_list (map (\<lambda>t. count_list t sep) ts)"
proof (induction "[sep]" ts rule: join.induct)
  case 1
  then show ?case by simp
next
  case (2 x)
  then show ?case by simp
next
  case (3 x y ys)
  then show ?case by (simp add: count_list_append)
qed

lemma split_join_iff:
  "spec_split sep (join [sep] ts) = ts \<longleftrightarrow> ts \<noteq> [] \<and> (\<forall>t \<in> set ts. sep \<notin> set t)"
proof
  assume e: "spec_split sep (join [sep] ts) = ts"
  then have ne: "ts \<noteq> []"
    using spec_split_not_Nil [of sep "join [sep] ts"] by auto
  from e have "length ts = Suc (count_list (join [sep] ts) sep)"
    using length_spec_split [of sep "join [sep] ts"] by simp
  with count_join [OF ne, of sep] have "sum_list (map (\<lambda>t. count_list t sep) ts) = 0"
    by simp
  then have "\<forall>t \<in> set ts. count_list t sep = 0"
    by (simp add: sum_list_eq_0_iff)
  then have "\<forall>t \<in> set ts. sep \<notin> set t"
    by (simp add: count_list_0_iff)
  with ne show "ts \<noteq> [] \<and> (\<forall>t \<in> set ts. sep \<notin> set t)"
    by simp
next
  assume "ts \<noteq> [] \<and> (\<forall>t \<in> set ts. sep \<notin> set t)"
  then show "spec_split sep (join [sep] ts) = ts"
    by (simp add: split_join)
qed

lemma store_metadata_fields:
  "store_metadata now mtype importance tags context source ''timestamp'' = None"
  "store_metadata now mtype importance tags context source ''memory_type'' = Some (PStr mtype)"
  "store_metadata now mtype importance tags context source ''importance'' = Some (PFloat (max 0 (min 1 importance)))"
  "store_metadata now mtype importance tags context source ''tags'' =
     Some (PStr (join '','' (case tags of None \<Rightarrow> [] | Some ts \<Rightarrow> ts)))"
  "store_metadata now mtype importance tags context source ''context'' = map_option PStr context"
  "store_metadata now mtype importance tags context source ''source'' = map_option PStr source"
  "store_metadata now mtype importance tags context source ''created_at'' = Some (PFloat now)"
  "store_metadata now mtype importance tags context source ''access_count'' = Some (PInt 0)"
  "store_metadata now mtype importance tags context source ''id'' = None"
  "store_metadata now mtype importance tags context source ''content'' = None"
  by (simp_all add: store_metadata_def opt_key_def Let_def map_add_def split: option.splits)

lemma store_memory_Inr:
  assumes "store_memory b c now uuid content mtype importance tags context source = Inr (mid, c')"
  shows "mid = uuid \<and> (\<exists>emb. coll_add b c uuid content
           ((store_metadata now mtype importance tags context source)(''timestamp'' \<mapsto> PFloat now)) emb = Inr c')"
  using assms
  by (auto simp: store_memory_def add_memory_def Let_def store_metadata_fields domIff
      split: sum.splits)

text \<open>
  Claim C4, as amended. After \<^verbatim>\<open>store_memory\<close> has stored a non-empty content in an
  index that answers \<^verbatim>\<open>get\<close> with what was added, \<^verbatim>\<open>get_memory_by_id\<close> on the
  returned id yields a record with that content, the memory type, the context and
  the source as given (absent when \<^verbatim>\<open>None\<close>), the importance clamped to the unit
  interval, an access count of 1, and the tags as one string, the list joined with
  commas. No split is made when the record is read; splitting that string at the
  commas gives the tag list back exactly when the list is not empty and no tag
  contains a comma.
\<close>

theorem store_then_get_round_trip:
  assumes "store_memory b c now uuid content mtype importance tags context source = Inr (mid, c')"
    and "\<forall>doc md emb. coll_add b c mid doc md emb = Inr c' \<longrightarrow> coll_get b c' mid = Inr [(doc, md)]"
    and "content \<noteq> []"
  shows "(\<exists>r. fst (get_memory_by_id b c' now' mid) = Inr (Some r) \<and>
            r ''id'' = Some (PStr mid) \<and>
            r ''content'' = Some (PStr content) \<and>
            r ''memory_type'' = Some (PStr mtype) \<and>
            r ''importance'' = Some (PFloat (max 0 (min 1 importance))) \<and>
            r ''tags'' = Some (PStr (join '','' (case tags of None \<Rightarrow> [] | Some ts \<Rightarrow> ts))) \<and>
            r ''context'' = map_option PStr context \<and>
            r ''source'' = map_option PStr source \<and>
            r ''created_at'' = Some (PFloat now) \<and>
            r ''last_accessed'' = Some (PFloat now') \<and>
            r ''access_count'' = Some (PInt 1)) \<and>
         (spec_split CHR '','' (join '','' (case tags of None \<Rightarrow> [] | Some ts \<Rightarrow> ts))
            = (case tags of None \<Rightarrow> [] | Some ts \<Rightarrow> ts) \<longleftrightarrow>
          (case tags of None \<Rightarrow> [] | Some ts \<Rightarrow> ts) \<noteq> [] \<and>
          (\<forall>t \<in> set (case tags of None \<Rightarrow> [] | Some ts \<Rightarrow> ts). CHR '','' \<notin> set t))"
proof
  define md where "md = (store_metadata now mtype importance tags context source)(''timestamp'' \<mapsto> PFloat now)"
  from store_memory_Inr [OF assms(1)] obtain emb where
    u: "mid = uuid" and add: "coll_add b c uuid content md emb = Inr c'"
    by (auto simp: md_def)
  from assms(2) [rule_format, of content md emb] add u
  have g: "coll_get b c' mid = Inr [(content, md)]"
    by simp
  have v: "vs_get_memory_by_id b c' mid = Some (mid, content, md)"
    using g assms(3) by (simp add: vs_get_memory_by_id_def)
  have a: "md ''access_count'' = Some (PInt 0)"
    by (simp add: md_def store_metadata_fields)
  define r where "r = [''id'' \<mapsto> PStr mid, ''content'' \<mapsto> PStr content]
                           ++ md(''last_accessed'' \<mapsto> PFloat now', ''access_count'' \<mapsto> PInt 1)"
  have "fst (get_memory_by_id b c' now' mid) = Inr (Some r)"
    using v a by (simp add: get_memory_by_id_def r_def)
  moreover have "r ''id'' = Some (PStr mid)" "r ''content'' = Some (PStr content)"
    "r ''memory_type'' = Some (PStr mtype)"
    "r ''importance'' = Some (PFloat (max 0 (min 1 importance)))"
    "r ''tags'' = Some (PStr (join '','' (case tags of None \<Rightarrow> [] | Some ts \<Rightarrow> ts)))"
    "r ''context'' = map_option PStr context"
    "r ''source'' = map_option PStr source"
    "r ''created_at'' = Some (PFloat now)"
    "r ''last_accessed'' = Some (PFloat now')"
    "r ''access_count'' = Some (PInt 1)"
    by (simp_all add: r_def md_def map_add_def store_metadata_fields split: option.splits)
  ultimately show "\<exists>r. fst (get_memory_by_id b c' now' mid) = Inr (Some r) \<and>
            r ''id'' = Some (PStr mid) \<and>
            r ''content'' = Some (PStr content) \<and>
            r ''memory_type'' = Some (PStr mtype) \<and>
            r ''importance'' = Some (PFloat (max 0 (min 1 importance))) \<and>
            r ''tags'' = Some (PStr (join '','' (case tags of None \<Rightarrow> [] | Some ts \<Rightarrow> ts))) \<and>
            r ''context'' = map_option PStr context \<and>
            r ''source'' = map_option PStr source \<and>
            r ''created_at'' = Some (PFloat now) \<and>
            r ''last_accessed'' = Some (PFloat now') \<and>
            r ''access_count'' = Some (PInt 1)"
    by blast
next
  show "spec_split CHR '','' (join '','' (case tags of None \<Rightarrow> [] | Some ts \<Rightarrow> ts))
            = (case tags of None \<Rightarrow> [] | Some ts \<Rightarrow> ts) \<longleftrightarrow>
          (case tags of None \<Rightarrow> [] | Some ts \<Rightarrow> ts) \<noteq> [] \<and>
          (\<forall>t \<in> set (case tags of None \<Rightarrow> [] | Some ts \<Rightarrow> ts). CHR '','' \<notin> set t)"
    by (rule split_join_iff)
qed

text \<open>The equations that evaluate a store and a read on the list index.\<close>

lemmas store_eval = store_memory_def add_memory_def list_index_def store_metadata_def
  opt_key_def Let_def get_memory_by_id_def vs_get_memory_by_id_def map_add_def

lemma ex_tagged_coll: "ex_tagged_store = Inr (''id-7'', snd (projr ex_tagged_store))"
  by (simp add: ex_tagged_store_def store_eval)

text \<open>
  Claim C4 as stated fails: stored with the one tag \<^verbatim>\<open>red,green\<close> and importance
  1.7, the record read back has the string \<^verbatim>\<open>red,green\<close> as its tags, which splits
  into two tags, and importance 1; and an empty content is stored but not read
  back, the answer being \<^verbatim>\<open>None\<close>.
\<close>

theorem round_trip_counterexample:
  "ex_tagged_store = Inr (''id-7'', snd (projr ex_tagged_store)) \<and>
   ex_tagged_record ''content'' = Some (PStr ''likes colours'') \<and>
   ex_tagged_record ''tags'' = Some (PStr ''red,green'') \<and>
   spec_split CHR '','' ''red,green'' = [''red'', ''green''] \<and>
   ex_tagged_record ''importance'' = Some (PFloat 1) \<and>
   ex_empty_store = Inr (''id-9'', snd (projr ex_empty_store)) \<and>
   fst (get_memory_by_id (list_index (1 / 2)) (snd (projr ex_empty_store)) 1 ''id-9'') = Inr None"
  by (simp add: ex_tagged_record_def ex_tagged_store_def ex_empty_store_def store_eval)

text \<open>A store with two plain tags, read back.\<close>

theorem store_then_get_round_trip_witness:
  "ex_store = Inr (''id-1'', snd (projr ex_store)) \<and>
   ''I am allergic to peanuts'' \<noteq> [] \<and>
   record_of (fst (get_memory_by_id (list_index (1 / 2)) (snd (projr ex_store)) 5 ''id-1'')) ''content''
     = Some (PStr ''I am allergic to peanuts'') \<and>
   record_of (fst (get_memory_by_id (list_index (1 / 2)) (snd (projr ex_store)) 5 ''id-1'')) ''tags''
     = Some (PStr ''health,food'') \<and>
   spec_split CHR '','' (join '','' [''health'', ''food'']) = [''health'', ''food'']"
proof -
  have st: "store_memory (list_index (1 / 2)) [] 0 ''id-1'' ''I am allergic to peanuts'' ''fact''
       (9 / 10) (Some [''health'', ''food'']) (Some ''chat'') None = Inr (''id-1'', snd (projr ex_store))"
    by (simp add: ex_store_def store_eval)
  have ct: "\<forall>doc md emb. coll_add (list_index (1 / 2)) [] ''id-1'' doc md emb = Inr (snd (projr ex_store)) \<longrightarrow>
      coll_get (list_index (1 / 2)) (snd (projr ex_store)) ''id-1'' = Inr [(doc, md)]"
  proof (intro allI impI)
    fix doc md emb
    assume a: "coll_add (list_index (1 / 2)) [] ''id-1'' doc md emb = Inr (snd (projr ex_store))"
    have "coll_add (list_index (1 / 2)) [] ''id-1'' doc md emb = Inr [(''id-1'', doc, md)]"
      by (simp add: list_index_def)
    with a have "snd (projr ex_store) = [(''id-1'', doc, md)]"
      by simp
    then show "coll_get (list_index (1 / 2)) (snd (projr ex_store)) ''id-1'' = Inr [(doc, md)]"
      by (simp add: list_index_def)
  qed
  have ne: "''I am allergic to peanuts'' \<noteq> []"
    by simp
  have e: "ex_store = Inr (''id-1'', snd (projr ex_store))"
    by (simp add: ex_store_def store_eval)
  from store_then_get_round_trip [OF st ct ne, of 5] obtain r where
    r: "fst (get_memory_by_id (list_index (1 / 2)) (snd (projr ex_store)) 5 ''id-1'') = Inr (Some r)"
       "r ''content'' = Some (PStr ''I am allergic to peanuts'')"
       "r ''tags'' = Some (PStr (join '','' [''health'', ''food'']))"
    and sp: "spec_split CHR '','' (join '','' [''health'', ''food'']) = [''health'', ''food'']"
    by auto
  have c1: "record_of (fst (get_memory_by_id (list_index (1 / 2)) (snd (projr ex_store)) 5 ''id-1'')) ''content''
     = Some (PStr ''I am allergic to peanuts'')"
    using r(1,2) by simp
  have c2: "record_of (fst (get_memory_by_id (list_index (1 / 2)) (snd (projr ex_store)) 5 ''id-1'')) ''tags''
     = Some (PStr ''health,food'')"
    using r(1,3) by simp
  show ?thesis
    by (intro conjI e ne c1 c2 sp)
qed


subsection \<open>Storage namespaces\<close>

lemma name_injective:
  assumes "length u1 = length u2"
    and "generate_collection_name u1 s1 = generate_collection_name u2 s2"
  shows "u1 = u2 \<and> s1 = s2"
proof -
  from assms(2) have "u1 @ (''_session_'' @ s1) = u2 @ (''_session_'' @ s2)"
    by (simp add: generate_collection_name_def)
  with assms(1) show ?thesis
    by simp
qed

lemma vs_name_pair:
  "u \<noteq> [] \<Longrightarrow> s \<noteq> [] \<Longrightarrow> vs_collection_name (Some u) (Some s) n = generate_collection_name u s"
  by (simp add: vs_collection_name_def truthy_def generate_collection_name_def)

lemma registry_ids_same_length:
  "length h1 \<ge> 8 \<Longrightarrow> length h2 \<ge> 8 \<Longrightarrow> length (new_user_id h1) = length (new_user_id h2)"
  by (simp add: new_user_id_def)

text \<open>
  Where the names do separate two pairs: user ids of the same length, as those the
  registry issues. A store under the first pair then changes nothing that a read by
  id or by query under the second pair sees.
\<close>

lemma namespaces_isolated_equal_length:
  assumes "u1 \<noteq> []" "s1 \<noteq> []" "u2 \<noteq> []" "s2 \<noteq> []"
    and "length u1 = length u2"
    and "(u1, s1) \<noteq> (u2, s2)"
  shows "generate_collection_name u1 s1 \<noteq> generate_collection_name u2 s2 \<and>
         vs_collection_name (Some u1) (Some s1) n1 \<noteq> vs_collection_name (Some u2) (Some s2) n2 \<and>
         get_memory_by_id_as b empty_coll
           (client_after cl (store_memory_as b empty_coll cl u1 s1 now uuid content mtype importance tags context source))
           u2 s2 now' mid
         = get_memory_by_id_as b empty_coll cl u2 s2 now' mid \<and>
         retrieve_memories_as b empty_coll
           (client_after cl (store_memory_as b empty_coll cl u1 s1 now uuid content mtype importance tags context source))
           u2 s2 now' query mt mr mi
         = retrieve_memories_as b empty_coll cl u2 s2 now' query mt mr mi"
proof -
  have ne: "generate_collection_name u1 s1 \<noteq> generate_collection_name u2 s2"
    using name_injective [OF assms(5)] assms(6) by auto
  then have ne': "vs_collection_name (Some u1) (Some s1) n1 \<noteq> vs_collection_name (Some u2) (Some s2) n2"
    for n1 n2
    using assms(1-4) by (simp add: vs_name_pair)
  have same: "client_after cl (store_memory_as b empty_coll cl u1 s1 now uuid content mtype importance tags context source)
          (vs_collection_name (Some u2) (Some s2) None)
        = cl (vs_collection_name (Some u2) (Some s2) None)"
    using ne' [of None None]
    by (auto simp: store_memory_as_def Let_def split: sum.splits)
  have "get_memory_by_id_as b empty_coll
           (client_after cl (store_memory_as b empty_coll cl u1 s1 now uuid content mtype importance tags context source))
           u2 s2 now' mid
         = get_memory_by_id_as b empty_coll cl u2 s2 now' mid"
    using same by (simp add: get_memory_by_id_as_def get_or_create_collection_def Let_def)
  moreover have "retrieve_memories_as b empty_coll
           (client_after cl (store_memory_as b empty_coll cl u1 s1 now uuid content mtype importance tags context source))
           u2 s2 now' query mt mr mi
         = retrieve_memories_as b empty_coll cl u2 s2 now' query mt mr mi"
    using same by (simp add: retrieve_memories_as_def get_or_create_collection_def Let_def)
  ultimately show ?thesis
    using ne ne' by blast
qed

text \<open>
  Claim C2. The claim is about every two distinct identity pairs, and the code does
  not meet it: the name is the plain concatenation of the identifiers around the
  separator, so the distinct pairs (\<^verbatim>\<open>a_session_b\<close>, \<^verbatim>\<open>c\<close>) and
  (\<^verbatim>\<open>a\<close>, \<^verbatim>\<open>b_session_c\<close>), all four identifiers present, get the same collection
  name from \<^verbatim>\<open>VectorStore.__init__\<close> and from \<^verbatim>\<open>generate_collection_name\<close>, and the
  memory stored under the first pair is returned under the second, both by
  \<^verbatim>\<open>get_memory_by_id\<close> and by \<^verbatim>\<open>retrieve_memories\<close> for a query.
\<close>

theorem namespace_collision:
  "(''a_session_b'', ''c'') \<noteq> (''a'', ''b_session_c'') \<and>
   vs_collection_name (Some ''a_session_b'') (Some ''c'') None
     = vs_collection_name (Some ''a'') (Some ''b_session_c'') None \<and>
   generate_collection_name ''a_session_b'' ''c'' = generate_collection_name ''a'' ''b_session_c'' \<and>
   ex_cross_read ''content'' = Some (PStr ''my card number is 1234'') \<and>
   length ex_cross_retrieval = 1 \<and>
   hd ex_cross_retrieval ''content'' = Some (PStr ''my card number is 1234'')"
  by (simp add: vs_collection_name_def truthy_def generate_collection_name_def ex_cross_read_def
      ex_cross_retrieval_def retrieve_memories_as_def
      ex_client_def store_memory_as_def get_memory_by_id_as_def get_or_create_collection_def
      store_eval retrieve_memories_def two_phase_search_def search_memories_def
      effective_max_def max_memories_def similarity_threshold_def type_rejects_def
      importance_rejects_def memory_result_def)

subsection \<open>Orchestration workflow\<close>

text \<open>The equation of \<open>ainvoke\<close> is unfolded one node at a time.\<close>

declare ainvoke.simps [simp del]

lemma ainvoke_end:
  "next_node n (fst (run_node a n sw)) = None \<Longrightarrow>
   ainvoke a n sw vis = (fst (run_node a n sw), snd (run_node a n sw), vis @ [n])"
  by (subst ainvoke.simps) (simp add: Let_def)

lemma ainvoke_step:
  "next_node n (fst (run_node a n sw)) = Some n' \<Longrightarrow>
   ainvoke a n sw vis = ainvoke a n' (run_node a n sw) (vis @ [n])"
  by (subst ainvoke.simps) (simp add: Let_def)

lemma ainvoke_from_analysis:
  "ainvoke a AnalyzeMemory sw vis =
     (if should_store_memory (fst (analyze_memory_node a sw))
      then (fst (store_memory_node a (analyze_memory_node a sw)),
            snd (store_memory_node a (analyze_memory_node a sw)),
            vis @ [AnalyzeMemory, StoreMemory, Finalize])
      else (fst (analyze_memory_node a sw), snd (analyze_memory_node a sw),
            vis @ [AnalyzeMemory, Finalize]))"
  by (simp add: ainvoke_step ainvoke_end finalize_node_def)

lemma ainvoke_from_start:
  "ainvoke a ProcessInput (initial_state input, w) [] =
     ainvoke a AnalyzeMemory (before_analysis a input w)
       [ProcessInput, RetrieveMemories, GenerateResponse]"
  by (simp add: ainvoke_step before_analysis_def)

lemma user_input_before_analysis: "user_input (fst (before_analysis a input w)) = input"
  by (simp add: before_analysis_def generate_response_node_def retrieve_memories_node_def
      process_input_node_def initial_state_def split: prod.splits sum.splits)

lemma should_store_iff:
  "should_store_memory (fst (analyze_memory_node a sw)) \<longleftrightarrow>
   (\<exists>sg sgs. analyze a (user_input (fst sw)) (agent_response (fst sw)) (relevant_memories (fst sw))
      = Inr (sg # sgs))"
  by (cases sw) (auto simp: analyze_memory_node_def neq_Nil_conv split: sum.splits)

lemma visited_run:
  "snd (snd (run a input w)) =
     [ProcessInput, RetrieveMemories, GenerateResponse, AnalyzeMemory] @
     (if should_store_memory (fst (analyze_memory_node a (before_analysis a input w)))
      then [StoreMemory] else []) @ [Finalize]"
  by (simp add: run_def ainvoke_from_start ainvoke_from_analysis split: sum.splits)

lemma store_loop_length:
  "length (fst (store_loop a sgs ids w)) \<le> length ids + length sgs"
proof (induction sgs arbitrary: ids w)
  case Nil
  then show ?case by simp
next
  case (Cons sg sgs)
  show ?case
  proof (cases "store_memory_suggestion a sg w")
    case (Pair res w')
    then show ?thesis
      using Cons.IH [of "ids @ [projr res]" w'] Cons.IH [of ids w']
      by (cases res) auto
  qed
qed


lemma length_attempts: "length (attempts a sgs w) = length sgs"
  by (induction sgs arbitrary: w) simp_all

lemma store_loop_ids:
  "fst (store_loop a sgs ids w) = ids @ succeeded (attempts a sgs w)"
proof (induction sgs arbitrary: ids w)
  case Nil
  then show ?case by simp
next
  case (Cons sg sgs)
  show ?case
  proof (cases "store_memory_suggestion a sg w")
    case (Pair res w')
    then show ?thesis
      using Cons.IH [of "ids @ [projr res]" w'] Cons.IH [of ids w']
      by (cases res) simp_all
  qed
qed

lemma store_memory_node_state:
  "fst (store_memory_node a (st, w0))
     = st\<lparr>stored_memory_ids := succeeded (attempts a (memory_suggestions st) w0)\<rparr>"
  using store_loop_ids [of a "memory_suggestions st" "[]" w0]
  by (cases "store_loop a (memory_suggestions st) [] w0") (simp add: store_memory_node_def)

lemma final_state_run:
  "fst (ainvoke a ProcessInput (initial_state input, w) []) =
     (if should_store_memory (fst (analyze_memory_node a (before_analysis a input w)))
      then fst (store_memory_node a (analyze_memory_node a (before_analysis a input w)))
      else fst (analyze_memory_node a (before_analysis a input w)))"
  by (simp add: ainvoke_from_start ainvoke_from_analysis)

text \<open>
  Claim C9, as amended. For every input and every behaviour of the agent, a run
  ends in \<^verbatim>\<open>finalize\<close> and returns a result with all six fields (the fallback
  result when reading the conversation context raises). The \<^verbatim>\<open>store_memory\<close> node
  runs exactly when the analyzer returned at least one suggestion. A call that raises
  in \<^verbatim>\<open>process_input\<close>, \<^verbatim>\<open>retrieve_memories\<close>, \<^verbatim>\<open>generate_response\<close> or
  \<^verbatim>\<open>analyze_memory\<close> sets the error field, and the node's own output becomes its
  default (empty list, apology string); a node whose calls answer records their
  answers. In \<^verbatim>\<open>store_memory\<close> every suggestion is tried once, in order, and a
  store that raises is skipped: the error field is left as it was, and the stored
  ids are exactly those of the stores that succeeded, in order. The fields of the
  result are those of the state the last node left.
\<close>

theorem workflow_always_finalizes:
  "last (snd (snd (run a input w))) = Finalize \<and>
   (StoreMemory \<in> set (snd (snd (run a input w))) \<longleftrightarrow>
      (\<exists>sg sgs. analyze a input (agent_response (fst (before_analysis a input w)))
                   (relevant_memories (fst (before_analysis a input w))) = Inr (sg # sgs))) \<and>
   (\<forall>e w'. add_user_message a (user_input st) w0 = (Inl e, w') \<longrightarrow>
      process_input_node a (st, w0) = (st\<lparr>error_field := Some (str_of e)\<rparr>, w')) \<and>
   (\<forall>e w'. retrieve a (user_input st) w0 = (Inl e, w') \<longrightarrow>
      retrieve_memories_node a (st, w0) =
        (st\<lparr>error_field := Some (str_of e), relevant_memories := []\<rparr>, w')) \<and>
   (\<forall>e w'. respond a (user_input st) (relevant_memories st) w0 = (Inl e, w') \<longrightarrow>
      generate_response_node a (st, w0) =
        (st\<lparr>error_field := Some (str_of e), agent_response := apology_generate\<rparr>, w')) \<and>
   (\<forall>e r w' w''. respond a (user_input st) (relevant_memories st) w0 = (Inr r, w') \<and>
        add_assistant_message a r w' = (Inl e, w'') \<longrightarrow>
      generate_response_node a (st, w0) =
        (st\<lparr>error_field := Some (str_of e), agent_response := apology_generate\<rparr>, w'')) \<and>
   (\<forall>e. analyze a (user_input st) (agent_response st) (relevant_memories st) = Inl e \<longrightarrow>
      analyze_memory_node a (st, w0) =
        (st\<lparr>error_field := Some (str_of e), memory_suggestions := [],
             should_store_memory := False\<rparr>, w0)) \<and>
   (\<forall>u w'. add_user_message a (user_input st) w0 = (Inr u, w') \<longrightarrow>
      process_input_node a (st, w0) = (st\<lparr>error_field := None\<rparr>, w')) \<and>
   (\<forall>ms w'. retrieve a (user_input st) w0 = (Inr ms, w') \<longrightarrow>
      retrieve_memories_node a (st, w0) = (st\<lparr>relevant_memories := ms\<rparr>, w')) \<and>
   (\<forall>r u w' w''. respond a (user_input st) (relevant_memories st) w0 = (Inr r, w') \<and>
        add_assistant_message a r w' = (Inr u, w'') \<longrightarrow>
      generate_response_node a (st, w0) = (st\<lparr>agent_response := r\<rparr>, w'')) \<and>
   (\<forall>sgs. analyze a (user_input st) (agent_response st) (relevant_memories st) = Inr sgs \<longrightarrow>
      analyze_memory_node a (st, w0) =
        (st\<lparr>memory_suggestions := sgs, should_store_memory := (sgs \<noteq> [])\<rparr>, w0)) \<and>
   fst (store_memory_node a (st, w0))
     = st\<lparr>stored_memory_ids := succeeded (attempts a (memory_suggestions st) w0)\<rparr> \<and>
   length (attempts a (memory_suggestions st) w0) = length (memory_suggestions st) \<and>
   error_field (fst (store_memory_node a (st, w0))) = error_field st \<and>
   fst (ainvoke a ProcessInput (initial_state input, w) []) =
     (if should_store_memory (fst (analyze_memory_node a (before_analysis a input w)))
      then fst (store_memory_node a (analyze_memory_node a (before_analysis a input w)))
      else fst (analyze_memory_node a (before_analysis a input w))) \<and>
   (\<forall>e. get_conversation_context a (fst (snd (run a input w))) = Inl e \<longrightarrow>
      fst (run a input w) =
        \<lparr>response = apology_run, r_relevant_memories = [], r_memory_suggestions = [],
         r_stored_memory_ids = [], r_error = Some (str_of e), short_term_context = []\<rparr>) \<and>
   (\<forall>context. get_conversation_context a (fst (snd (run a input w))) = Inr context \<longrightarrow>
      fst (run a input w) =
        \<lparr>response = agent_response (fst (ainvoke a ProcessInput (initial_state input, w) [])),
         r_relevant_memories = relevant_memories (fst (ainvoke a ProcessInput (initial_state input, w) [])),
         r_memory_suggestions = memory_suggestions (fst (ainvoke a ProcessInput (initial_state input, w) [])),
         r_stored_memory_ids = stored_memory_ids (fst (ainvoke a ProcessInput (initial_state input, w) [])),
         r_error = error_field (fst (ainvoke a ProcessInput (initial_state input, w) [])),
         short_term_context = context\<rparr>)"
proof (intro conjI)
  show "last (snd (snd (run a input w))) = Finalize"
    by (simp add: visited_run)
  show "StoreMemory \<in> set (snd (snd (run a input w))) \<longleftrightarrow>
      (\<exists>sg sgs. analyze a input (agent_response (fst (before_analysis a input w)))
                   (relevant_memories (fst (before_analysis a input w))) = Inr (sg # sgs))"
    by (simp add: visited_run should_store_iff user_input_before_analysis)
  show "\<forall>e w'. add_user_message a (user_input st) w0 = (Inl e, w') \<longrightarrow>
      process_input_node a (st, w0) = (st\<lparr>error_field := Some (str_of e)\<rparr>, w')"
    by (simp add: process_input_node_def)
  show "\<forall>e w'. retrieve a (user_input st) w0 = (Inl e, w') \<longrightarrow>
      retrieve_memories_node a (st, w0) =
        (st\<lparr>error_field := Some (str_of e), relevant_memories := []\<rparr>, w')"
    by (simp add: retrieve_memories_node_def)
  show "\<forall>e w'. respond a (user_input st) (relevant_memories st) w0 = (Inl e, w') \<longrightarrow>
      generate_response_node a (st, w0) =
        (st\<lparr>error_field := Some (str_of e), agent_response := apology_generate\<rparr>, w')"
    by (simp add: generate_response_node_def)
  show "\<forall>e r w' w''. respond a (user_input st) (relevant_memories st) w0 = (Inr r, w') \<and>
        add_assistant_message a r w' = (Inl e, w'') \<longrightarrow>
      generate_response_node a (st, w0) =
        (st\<lparr>error_field := Some (str_of e), agent_response := apology_generate\<rparr>, w'')"
    by (simp add: generate_response_node_def)
  show "\<forall>e. analyze a (user_input st) (agent_response st) (relevant_memories st) = Inl e \<longrightarrow>
      analyze_memory_node a (st, w0) =
        (st\<lparr>error_field := Some (str_of e), memory_suggestions := [],
             should_store_memory := False\<rparr>, w0)"
    by (simp add: analyze_memory_node_def)
  show "\<forall>u w'. add_user_message a (user_input st) w0 = (Inr u, w') \<longrightarrow>
      process_input_node a (st, w0) = (st\<lparr>error_field := None\<rparr>, w')"
    by (simp add: process_input_node_def)
  show "\<forall>ms w'. retrieve a (user_input st) w0 = (Inr ms, w') \<longrightarrow>
      retrieve_memories_node a (st, w0) = (st\<lparr>relevant_memories := ms\<rparr>, w')"
    by (simp add: retrieve_memories_node_def)
  show "\<forall>r u w' w''. respond a (user_input st) (relevant_memories st) w0 = (Inr r, w') \<and>
        add_assistant_message a r w' = (Inr u, w'') \<longrightarrow>
      generate_response_node a (st, w0) = (st\<lparr>agent_response := r\<rparr>, w'')"
    by (simp add: generate_response_node_def)
  show "\<forall>sgs. analyze a (user_input st) (agent_response st) (relevant_memories st) = Inr sgs \<longrightarrow>
      analyze_memory_node a (st, w0) =
        (st\<lparr>memory_suggestions := sgs, should_store_memory := (sgs \<noteq> [])\<rparr>, w0)"
    by (simp add: analyze_memory_node_def)
  show "fst (store_memory_node a (st, w0))
     = st\<lparr>stored_memory_ids := succeeded (attempts a (memory_suggestions st) w0)\<rparr>"
    by (rule store_memory_node_state)
  show "length (attempts a (memory_suggestions st) w0) = length (memory_suggestions st)"
    by (rule length_attempts)
  show "error_field (fst (store_memory_node a (st, w0))) = error_field st"
    by (simp add: store_memory_node_state)
  show "fst (ainvoke a ProcessInput (initial_state input, w) []) =
     (if should_store_memory (fst (analyze_memory_node a (before_analysis a input w)))
      then fst (store_memory_node a (analyze_memory_node a (before_analysis a input w)))
      else fst (analyze_memory_node a (before_analysis a input w)))"
    by (rule final_state_run)
  show "\<forall>e. get_conversation_context a (fst (snd (run a input w))) = Inl e \<longrightarrow>
      fst (run a input w) =
        \<lparr>response = apology_run, r_relevant_memories = [], r_memory_suggestions = [],
         r_stored_memory_ids = [], r_error = Some (str_of e), short_term_context = []\<rparr>"
    by (auto simp: run_def split: prod.splits sum.splits)
  show "\<forall>context. get_conversation_context a (fst (snd (run a input w))) = Inr context \<longrightarrow>
      fst (run a input w) =
        \<lparr>response = agent_response (fst (ainvoke a ProcessInput (initial_state input, w) [])),
         r_relevant_memories = relevant_memories (fst (ainvoke a ProcessInput (initial_state input, w) [])),
         r_memory_suggestions = memory_suggestions (fst (ainvoke a ProcessInput (initial_state input, w) [])),
         r_stored_memory_ids = stored_memory_ids (fst (ainvoke a ProcessInput (initial_state input, w) [])),
         r_error = error_field (fst (ainvoke a ProcessInput (initial_state input, w) [])),
         short_term_context = context\<rparr>"
    by (auto simp: run_def split: prod.splits sum.splits)
qed

lemma ex_suggestions:
  "analyze_for_memory_storage ''I love pizza'' =
     [\<lparr>s_type = ''preference'', s_content = ''I love pizza'',
       s_reason = ''User expressed a preference'', s_importance = 8 / 10\<rparr>]"
proof -
  have "any_keyword preference_keywords ''I love pizza''"
    "\<not> any_keyword personal_keywords ''I love pizza''"
    "\<not> any_keyword fact_keywords ''I love pizza''"
    by code_simp+
  then show ?thesis
    by (simp add: analyze_for_memory_storage_def)
qed

lemma ex_run:
  "run (ex_agent up) ''I love pizza'' () =
    (\<lparr>response = (if up then ''Noted.'' else apology_generate), r_relevant_memories = [],
      r_memory_suggestions = analyze_for_memory_storage ''I love pizza'',
      r_stored_memory_ids = [],
      r_error = (if up then None else Some ''model down''), short_term_context = []\<rparr>, (),
     [ProcessInput, RetrieveMemories, GenerateResponse, AnalyzeMemory, StoreMemory, Finalize])"
  by (simp only: run_def ainvoke_from_start ainvoke_from_analysis)
    (simp add: before_analysis_def
      process_input_node_def retrieve_memories_node_def generate_response_node_def
      analyze_memory_node_def store_memory_node_def initial_state_def ex_agent_def ex_suggestions)

text \<open>
  Claim C9 as stated fails in the \<^verbatim>\<open>store_memory\<close> stage: the one suggestion of the
  utterance cannot be stored, the stage runs and stores nothing, and the error field
  of the result is still \<^verbatim>\<open>None\<close>.
\<close>

theorem store_failure_counterexample:
  "fst (store_memory_suggestion (ex_agent True)
          (hd (r_memory_suggestions (fst (run (ex_agent True) ''I love pizza'' ())))) ())
     = Inl (Upstream ''index down'') \<and>
   StoreMemory \<in> set (snd (snd (run (ex_agent True) ''I love pizza'' ()))) \<and>
   r_stored_memory_ids (fst (run (ex_agent True) ''I love pizza'' ())) = [] \<and>
   r_error (fst (run (ex_agent True) ''I love pizza'' ())) = None"
  by (simp add: ex_run) (simp add: ex_agent_def)

text \<open>A run in which the language model raises.\<close>

theorem workflow_always_finalizes_witness:
  "respond (ex_agent False) ''I love pizza'' [] () = (Inl (Upstream ''model down''), ()) \<and>
   generate_response_node (ex_agent False) (initial_state ''I love pizza'', ()) =
     ((initial_state ''I love pizza'')\<lparr>error_field := Some ''model down'',
        agent_response := apology_generate\<rparr>, ()) \<and>
   last (snd (snd (run (ex_agent False) ''I love pizza'' ()))) = Finalize \<and>
   StoreMemory \<in> set (snd (snd (run (ex_agent False) ''I love pizza'' ()))) \<and>
   response (fst (run (ex_agent False) ''I love pizza'' ())) = apology_generate \<and>
   r_error (fst (run (ex_agent False) ''I love pizza'' ())) = Some ''model down''"
proof -
  have r: "respond (ex_agent False) ''I love pizza'' [] () = (Inl (Upstream ''model down''), ())"
    by (simp add: ex_agent_def)
  have i: "user_input (initial_state ''I love pizza'') = ''I love pizza''"
    "relevant_memories (initial_state ''I love pizza'') = []"
    by (simp_all add: initial_state_def)
  from workflow_always_finalizes [of "ex_agent False" "''I love pizza''" "()" "initial_state ''I love pizza''" "()"]
  show ?thesis
    using r i by (simp add: ex_run)
qed


subsection \<open>Chunking\<close>

lemma slice_bound_diff: "i \<le> j \<Longrightarrow> slice_bound n j - slice_bound n i \<le> nat (j - i)"
  by (auto simp: slice_bound_def)

lemma py_slice_length: "i \<le> j \<Longrightarrow> length (py_slice xs i j) \<le> nat (j - i)"
  using slice_bound_diff [of i j "length xs"]
  by (simp add: py_slice_def Let_def)

lemma py_slice_shorter: "length (py_slice xs 0 j) \<le> length xs"
  by (simp add: py_slice_def Let_def slice_bound_def)

lemma rfind_from_less:
  "found_at < i + int (length s) \<Longrightarrow> rfind_from c s i found_at < i + int (length s)"
proof (induction s arbitrary: i found_at)
  case Nil
  then show ?case by simp
next
  case (Cons x xs)
  have "(if x = c then i else found_at) < (i + 1) + int (length xs)"
    using Cons.prems by simp
  from Cons.IH [OF this] show ?case by simp
qed

lemma rfind_less: "s \<noteq> [] \<Longrightarrow> rfind s c < int (length s)"
  using rfind_from_less [of "- 1" 0 s c] by (simp add: rfind_def)

lemma rfind_le: "rfind s c < int (length s) \<or> rfind s c = - 1"
proof (cases "s = []")
  case True
  then show ?thesis by (simp add: rfind_def)
next
  case False
  then show ?thesis by (simp add: rfind_less)
qed

lemma strip_length: "length (strip s) \<le> length s"
proof -
  have "length (dropWhile is_space (rev (dropWhile is_space s))) \<le> length (dropWhile is_space s)"
    using length_dropWhile_le [of is_space "rev (dropWhile is_space s)"] by simp
  also have "\<dots> \<le> length s"
    by (rule length_dropWhile_le)
  finally show ?thesis by (simp add: strip_def)
qed

lemma chunk_step_length:
  assumes "0 \<le> chunk_size"
  shows "int (length (fst (chunk_step text chunk_size overlap start))) \<le> chunk_size"
proof -
  define chunk where "chunk = py_slice text start (start + chunk_size)"
  have c: "int (length chunk) \<le> chunk_size"
    using py_slice_length [of start "start + chunk_size" "text"] assms by (simp add: chunk_def)
  have "int (length (strip (py_slice chunk 0 j))) \<le> chunk_size" for j
    using strip_length [of "py_slice chunk 0 j"] py_slice_shorter [of chunk j] c by linarith
  moreover have "int (length (strip chunk)) \<le> chunk_size"
    using strip_length [of chunk] c by linarith
  ultimately show ?thesis
    by (simp add: chunk_step_def Let_def chunk_def [symmetric])
qed

lemma chunk_step_advances:
  assumes "0 < chunk_size" and "real_of_int overlap \<le> real_of_int chunk_size * (8 / 10)"
  shows "start < snd (chunk_step text chunk_size overlap start)"
proof -
  define ls where "ls = rfind (py_slice text start (start + chunk_size)) CHR '' ''"
  have a: "overlap < chunk_size"
  proof -
    have "real_of_int chunk_size * (8 / 10) < real_of_int chunk_size"
      using assms(1) by simp
    with assms(2) have "real_of_int overlap < real_of_int chunk_size" by linarith
    then show ?thesis by simp
  qed
  have b: "overlap < ls" if "real_of_int ls > real_of_int chunk_size * (8 / 10)"
  proof -
    from that assms(2) have "real_of_int overlap < real_of_int ls" by linarith
    then show ?thesis by simp
  qed
  show ?thesis
    using a b by (auto simp: chunk_step_def Let_def ls_def [symmetric])
qed

lemma chunk_step_recedes:
  assumes "0 < chunk_size" and "chunk_size \<le> overlap"
  shows "snd (chunk_step text chunk_size overlap start) \<le> start"
proof -
  define chunk where "chunk = py_slice text start (start + chunk_size)"
  have c: "int (length chunk) \<le> chunk_size"
    using py_slice_length [of start "start + chunk_size" "text"] assms by (simp add: chunk_def)
  have "rfind chunk CHR '' '' < chunk_size"
    using rfind_le [of chunk "CHR '' ''"] c assms(1) by auto
  then show ?thesis
    using assms by (auto simp: chunk_step_def Let_def chunk_def [symmetric])
qed

lemma chunk_loop_never_returns:
  assumes "0 < chunk_size" and "chunk_size \<le> overlap" and "text \<noteq> []"
  shows "start \<le> 0 \<Longrightarrow> chunk_loop fuel text chunk_size overlap start chunks = None"
proof (induction fuel arbitrary: start chunks)
  case 0
  then show ?case by simp
next
  case (Suc fuel)
  obtain chunk start' where s: "chunk_step text chunk_size overlap start = (chunk, start')"
    by (cases "chunk_step text chunk_size overlap start")
  with chunk_step_recedes [OF assms(1,2), of "text" start] have "start' \<le> start"
    by simp
  with Suc.prems have le: "start' \<le> 0" by simp
  have "0 < int (length text)" using assms(3) by simp
  with le Suc.prems have "start' < int (length text)" "start < int (length text)"
    by linarith+
  with Suc.IH [OF le] s show ?case
    by simp
qed

lemma chunk_loop_returns:
  assumes "0 < chunk_size" and "real_of_int overlap \<le> real_of_int chunk_size * (8 / 10)"
  shows "0 \<le> start \<Longrightarrow> nat (int (length text) - start) < fuel \<Longrightarrow>
    \<exists>r. chunk_loop fuel text chunk_size overlap start chunks = Some (chunks @ r) \<and>
        (start < int (length text) \<longrightarrow> r \<noteq> []) \<and>
        (\<forall>c \<in> set r. int (length c) \<le> chunk_size)"
proof (induction fuel arbitrary: start chunks)
  case 0
  then show ?case by simp
next
  case (Suc fuel)
  show ?case
  proof (cases "start < int (length text)")
    case False
    then show ?thesis by simp
  next
    case True
    obtain chunk start' where s: "chunk_step text chunk_size overlap start = (chunk, start')"
      by (cases "chunk_step text chunk_size overlap start")
    from chunk_step_advances [OF assms, of start "text"] s have adv: "start < start'"
      by simp
    from chunk_step_length [of chunk_size "text" overlap start] assms(1) s
    have len: "int (length chunk) \<le> chunk_size"
      by simp
    show ?thesis
    proof (cases "start' \<ge> int (length text)")
      case True
      then have "chunk_loop (Suc fuel) text chunk_size overlap start chunks = Some (chunks @ [chunk])"
        using \<open>start < int (length text)\<close> s by simp
      with len show ?thesis by simp
    next
      case False
      have "0 \<le> start'" using adv Suc.prems(1) by simp
      moreover have "nat (int (length text) - start') < fuel"
        using adv False Suc.prems by linarith
      ultimately obtain r where
        r: "chunk_loop fuel text chunk_size overlap start' (chunks @ [chunk]) = Some ((chunks @ [chunk]) @ r)"
           "\<forall>c \<in> set r. int (length c) \<le> chunk_size"
        using Suc.IH [of start' "chunks @ [chunk]"] by blast
      have "chunk_loop (Suc fuel) text chunk_size overlap start chunks = Some (chunks @ (chunk # r))"
        using \<open>start < int (length text)\<close> s False r(1) by simp
      with len r(2) show ?thesis by simp
    qed
  qed
qed

lemma chunk_loop_more_fuel:
  "chunk_loop fuel text chunk_size overlap start chunks = Some r \<Longrightarrow>
   chunk_loop (fuel + k) text chunk_size overlap start chunks = Some r"
proof (induction fuel arbitrary: start chunks)
  case 0
  then show ?case by simp
next
  case (Suc fuel)
  then show ?case
    by (auto split: if_splits prod.splits)
qed

text \<open>
  With a positive chunk size and the overlap in force at most 0.8 times the chunk
  size, the start index grows in every pass, the loop leaves within as many passes
  as the text has characters, the list is not empty and no chunk is longer than the
  chunk size. The configured defaults are such a pair.
\<close>

lemma chunk_text_terminates:
  assumes "0 < or_default chunk_size config_chunk_size"
    and "real_of_int (or_default overlap config_chunk_overlap)
           \<le> real_of_int (or_default chunk_size config_chunk_size) * (8 / 10)"
    and "length text < fuel"
  shows "\<exists>r. chunk_text fuel text chunk_size overlap = Some r \<and> r \<noteq> [] \<and>
           (\<forall>c \<in> set r. int (length c) \<le> or_default chunk_size config_chunk_size)"
proof (cases "int (length text) \<le> or_default chunk_size config_chunk_size")
  case True
  then show ?thesis by (simp add: chunk_text_def Let_def)
next
  case False
  then have "0 < int (length text)" using assms(1) by linarith
  moreover have "nat (int (length text) - 0) < fuel" using assms(3) by simp
  ultimately show ?thesis
    using chunk_loop_returns [OF assms(1,2), of 0 "text" fuel "[]"] False
    by (auto simp: chunk_text_def Let_def)
qed

lemma chunk_text_defaults:
  "length text < fuel \<Longrightarrow> \<exists>r. chunk_text fuel text None None = Some r \<and> r \<noteq> [] \<and>
     (\<forall>c \<in> set r. int (length c) \<le> 1000)"
  using chunk_text_terminates [of None None "text" fuel]
  by (simp add: or_default_def config_chunk_size_def config_chunk_overlap_def)

text \<open>
  Claim C10. The claim covers \<^verbatim>\<open>overlap = 0\<close>, but \<^verbatim>\<open>overlap or Config.CHUNK_OVERLAP\<close>
  replaces a zero overlap by the default 200. With a chunk size of at most 200 and a
  text longer than the chunk size, the start index then never grows and the loop
  does not return, whatever the number of passes allowed.
\<close>

theorem chunk_text_zero_overlap_never_returns:
  assumes "0 < chunk_size" and "chunk_size \<le> 200" and "chunk_size < int (length text)"
  shows "chunk_text fuel text (Some chunk_size) (Some 0) = None"
proof -
  have "text \<noteq> []" using assms(1,3) by auto
  from chunk_loop_never_returns [OF assms(1) _ this, of 200 0 fuel "[]"] assms
  show ?thesis
    by (simp add: chunk_text_def or_default_def config_chunk_overlap_def Let_def)
qed

text \<open>Eleven characters in chunks of ten with no overlap.\<close>

theorem chunk_text_zero_overlap_never_returns_witness:
  "(0::int) < 10 \<and> (10::int) \<le> 200 \<and> 10 < int (length ''abcdefghijk'') \<and>
   chunk_text 1000000 ''abcdefghijk'' (Some 10) (Some 0) = None"
  using chunk_text_zero_overlap_never_returns [of 10 "''abcdefghijk''" 1000000]
  by simp


end
